theory Spec2Isabelle
  imports Complex_Main
begin

section \<open>JavaScript values and arithmetic used by the engine\<close>

text \<open>
  The engine is written in TypeScript. Coordinates, scores, indices and hashes are
  integers (\<open>int\<close>), the scaled random values are rationals (\<open>rat\<close>). The only exception the engine can raise is a \<open>TypeError\<close>,
  on reading a property of \<open>undefined\<close>.
\<close>

datatype error = TypeError

text \<open>Sequencing of computations that may throw: the first exception wins.\<close>

definition bindE :: "error + 'a \<Rightarrow> ('a \<Rightarrow> error + 'b) \<Rightarrow> error + 'b" where
  "bindE r f = (case r of Inl e \<Rightarrow> Inl e | Inr v \<Rightarrow> f v)"

fun sequenceE :: "(error + 'a) list \<Rightarrow> error + 'a list" where
  "sequenceE [] = Inr []"
| "sequenceE (r # rs) =
     (case r of
        Inl e \<Rightarrow> Inl e
      | Inr v \<Rightarrow> (case sequenceE rs of Inl e \<Rightarrow> Inl e | Inr vs \<Rightarrow> Inr (v # vs)))"

text \<open>\<open>ToIntegerOrInfinity\<close>: rounding towards zero.\<close>

definition trunc :: "rat \<Rightarrow> int" where
  "trunc q = (if q < 0 then - \<lfloor>- q\<rfloor> else \<lfloor>q\<rfloor>)"

text \<open>The operator \<open>%\<close>: the remainder takes the sign of the dividend.\<close>

definition jsRem :: "int \<Rightarrow> int \<Rightarrow> int" where
  "jsRem a b = sgn a * (\<bar>a\<bar> mod \<bar>b\<bar>)"

definition jsRemQ :: "rat \<Rightarrow> rat \<Rightarrow> rat" where
  "jsRemQ a b = a - b * of_int (trunc (a / b))"

text \<open>
  \<open>ToLength\<close>, as \<open>Array.from({ length: v })\<close> applies it: \<open>NaN\<close> (here \<open>None\<close>) and
  negative values give 0, other values are rounded towards zero.
\<close>

definition toLength :: "rat option \<Rightarrow> nat" where
  "toLength v = (case v of None \<Rightarrow> 0 | Some q \<Rightarrow> nat (trunc q))"

text \<open>Reading \<open>array[i]\<close>: \<open>undefined\<close> (here \<open>None\<close>) outside the array.\<close>

definition lookup :: "'a list \<Rightarrow> int \<Rightarrow> 'a option" where
  "lookup xs i = (if 0 \<le> i \<and> i < int (length xs) then Some (xs ! nat i) else None)"

text \<open>\<open>array.map((v, i) => ...)\<close> passes each element with its index.\<close>

definition indexed :: "'a list \<Rightarrow> (nat \<times> 'a) list" where
  "indexed xs = enumerate 0 xs"

section \<open>Constants (types.ts)\<close>

definition RNG_SEED_1 :: int where "RNG_SEED_1 = 16012004"
definition RNG_SEED_2 :: int where "RNG_SEED_2 = 19082004"

definition CANVAS_WIDTH :: int where "CANVAS_WIDTH = 200"
definition CANVAS_HEIGHT :: int where "CANVAS_HEIGHT = 400"
definition PREVIEW_WIDTH :: int where "PREVIEW_WIDTH = 160"
definition PREVIEW_HEIGHT :: int where "PREVIEW_HEIGHT = 80"

definition TICK_RATE_MS :: int where "TICK_RATE_MS = 200"
definition GRID_WIDTH :: int where "GRID_WIDTH = 10"
definition GRID_HEIGHT :: int where "GRID_HEIGHT = 20"

text \<open>The quotients below are exact: 200 / 10, 400 / 20, 200 / 2 and 160 / 2.\<close>

definition Block_WIDTH :: int where "Block_WIDTH = CANVAS_WIDTH div GRID_WIDTH"
definition Block_HEIGHT :: int where "Block_HEIGHT = CANVAS_HEIGHT div GRID_HEIGHT"

definition SPAWN_CANVAS_X :: int where "SPAWN_CANVAS_X = CANVAS_WIDTH div 2 - 2 * Block_WIDTH"
definition SPAWN_CANVAS_Y :: int where "SPAWN_CANVAS_Y = 0"
definition SPAWN_PREVIEW_X :: int where "SPAWN_PREVIEW_X = PREVIEW_WIDTH div 2 - 2 * Block_WIDTH"
definition SPAWN_PREVIEW_Y :: int where "SPAWN_PREVIEW_Y = 0"

section \<open>The random number generator (utils.ts, class RNG)\<close>

text \<open>
  JavaScript computes in IEEE doubles. An integer below \<open>2^53\<close> in absolute value is a
  double; a larger integer is rounded to 53 significant bits, to the nearest such value
  and to the one with an even significand on a tie. \<open>roundDouble\<close> is that rounding on
  integers (the engine stays far below the overflow of doubles). In \<open>hash\<close> the product
  \<open>a * seed\<close> is rounded, then the sum with \<open>c\<close>; the remainder of doubles is exact.
  Seeds are integers, as the two seeds of the game and all hashes are.
\<close>

function binaryExponent :: "int \<Rightarrow> nat" where
  "binaryExponent a = (if a < 2 ^ 53 then 0 else Suc (binaryExponent (a div 2)))"
  by pat_completeness auto
termination
  by (relation "measure nat") auto

declare binaryExponent.simps [simp del]

definition roundDouble :: "int \<Rightarrow> int" where
  "roundDouble n =
     (let a = \<bar>n\<bar>;
          q = 2 ^ binaryExponent a;
          k = a div q;
          r = a mod q;
          up = (2 * r > q \<or> (2 * r = q \<and> odd k))
      in sgn n * ((if up then k + 1 else k) * q))"

definition RNG_m :: int where "RNG_m = 2147483648"
definition RNG_a :: int where "RNG_a = 1103515245"
definition RNG_c :: int where "RNG_c = 12345"

definition hash :: "int \<Rightarrow> int" where
  "hash seed = jsRem (roundDouble (roundDouble (RNG_a * seed) + RNG_c)) RNG_m"

text \<open>
  \<open>scale\<close> and \<open>scaleToRange\<close> are computed exactly, on rationals; a double result
  differs from the exact one by a relative error of about \<open>2^-53\<close> for each operation.
  On a hash \<open>h\<close> from 0 to \<open>m - 2\<close> and a range of \<open>w\<close> integers the exact value under
  the floor is \<open>w * h / (m - 1) + from\<close>; as \<open>m - 1\<close> is prime it is an integer only for
  \<open>h = 0\<close>, where the doubles are exact too, and otherwise at least \<open>1 / (m - 1)\<close> away
  from every integer, so the floor of the double is the floor of the exact value.
\<close>

definition scale :: "int \<Rightarrow> rat" where
  "scale h = (2 * of_int h) / (of_int RNG_m - 1) - 1"

definition scaleToRange :: "rat \<Rightarrow> int \<Rightarrow> int \<Rightarrow> int" where
  "scaleToRange h from to = \<lfloor>(h + 1) / 2 * of_int (to - from + 1) + of_int from\<rfloor>"

text \<open>
  The stream \<open>rng$(seed)\<close> of observables.ts, \<open>scan(RNG.hash, seed)\<close> followed by
  \<open>map(RNG.scale)\<close>: its value number \<open>n\<close>, counted from 0, is the scaled result of
  \<open>n + 1\<close> applications of \<open>hash\<close> to the seed.
\<close>

definition rng :: "int \<Rightarrow> nat \<Rightarrow> rat" where
  "rng seed n = scale ((hash ^^ Suc n) seed)"

section \<open>Matrix rotation (utils.ts)\<close>

text \<open>
  A \<open>NumbersMatrix\<close> is an array of arrays of numbers. A matrix computed by
  \<open>rotateMatrix\<close> can hold \<open>undefined\<close> cells (when the argument is ragged), so the
  cells of a computed matrix are options, \<open>None\<close> for \<open>undefined\<close>.
\<close>

type_synonym NumbersMatrix = "int list list"
type_synonym Cells = "int option list list"

definition cells :: "NumbersMatrix \<Rightarrow> Cells" where
  "cells m = map (map Some) m"

text \<open>
  \<open>matrix[n - j - 1][i]\<close> throws when \<open>matrix[n - j - 1]\<close> is \<open>undefined\<close>, and is
  \<open>undefined\<close> when that row has no index \<open>i\<close>.
\<close>

definition rotateMatrix :: "Cells \<Rightarrow> error + Cells" where
  "rotateMatrix matrix =
     (let n = int (length matrix) in
      sequenceE (map (\<lambda>(i, row).
        sequenceE (map (\<lambda>j.
          case lookup matrix (n - int j - 1) of
            None \<Rightarrow> Inl TypeError
          | Some r \<Rightarrow> Inr (case lookup r (int i) of None \<Rightarrow> None | Some v \<Rightarrow> v))
          [0..<length row]))
        (indexed matrix)))"

text \<open>\<open>Array.from({ length: times % 4 }).reduce((acc, _) => rotateMatrix(acc), matrix)\<close>\<close>

fun repeatE :: "nat \<Rightarrow> ('a \<Rightarrow> error + 'a) \<Rightarrow> 'a \<Rightarrow> error + 'a" where
  "repeatE 0 f a = Inr a"
| "repeatE (Suc k) f a = bindE (f a) (repeatE k f)"

definition rotateMatrixNTimes :: "rat option \<Rightarrow> Cells \<Rightarrow> error + Cells" where
  "rotateMatrixNTimes n_times matrix =
     repeatE (toLength (map_option (\<lambda>t. jsRemQ t 4) n_times)) rotateMatrix matrix"

text \<open>A matrix is square when it has as many rows as each row has cells.\<close>

definition square :: "'a list list \<Rightarrow> bool" where
  "square m = list_all (\<lambda>row. length row = length m) m"

section \<open>The data model (types.ts)\<close>

text \<open>
  Field names carry a prefix where the TypeScript name is shared between two types or
  is reserved in Isabelle: a block's \<open>x\<close> is \<open>blk_x\<close>, a shape's \<open>x\<close> is \<open>shape_x\<close>,
  its \<open>fix\<close> is \<open>shape_fix\<close>. The angle of a shape is \<open>None\<close> when it is not a number
  (\<open>undefined\<close> or \<open>NaN\<close>), which the engine treats alike. The optional field \<open>tulips\<close>
  is \<open>None\<close> when absent.
\<close>

record SingleBlock =
  blk_x :: int
  blk_y :: int
  blk_width :: int
  blk_height :: int

record ShapeType =
  type_name :: string
  matrix :: NumbersMatrix
  color :: string

record Shape =
  shape_id :: string
  shape_x :: int
  shape_y :: int
  angle :: "int option"
  shape_type :: ShapeType
  blocks :: "SingleBlock list"
  shape_width :: int
  shape_height :: int
  shape_fix :: bool

record Statistics =
  level :: int
  highScore :: int
  score :: int

record Movement =
  deltaX :: int
  deltaY :: int

record GridPosition =
  pos_x :: rat
  pos_y :: rat

record State =
  gameEnd :: bool
  currentShape :: "Shape option"
  nextShape :: Shape
  fixedShapes :: "Shape list"
  stats :: Statistics
  dropRate :: int
  obstacles :: "Shape list"
  levelUp :: bool
  tulips :: "int option"

section \<open>Shapes (shapes.ts)\<close>

definition ALL_SHAPE_TYPES :: "ShapeType list" where
  "ALL_SHAPE_TYPES =
    [\<lparr>type_name = ''O'',
      matrix = [[0, 0, 0, 0],
                [0, 1, 1, 0],
                [0, 1, 1, 0],
                [0, 0, 0, 0]],
      color = ''green''\<rparr>,
     \<lparr>type_name = ''L'',
      matrix = [[1, 0, 0],
                [1, 1, 1],
                [0, 0, 0]],
      color = ''blue''\<rparr>,
     \<lparr>type_name = ''J'',
      matrix = [[0, 0, 1],
                [1, 1, 1],
                [0, 0, 0]],
      color = ''pink''\<rparr>,
     \<lparr>type_name = ''S'',
      matrix = [[0, 0, 0],
                [0, 1, 1],
                [1, 1, 0]],
      color = ''red''\<rparr>,
     \<lparr>type_name = ''Z'',
      matrix = [[0, 0, 0],
                [1, 1, 0],
                [0, 1, 1]],
      color = ''purple''\<rparr>,
     \<lparr>type_name = ''I'',
      matrix = [[0, 0, 1, 0],
                [0, 0, 1, 0],
                [0, 0, 1, 0],
                [0, 0, 1, 0]],
      color = ''orange''\<rparr>,
     \<lparr>type_name = ''T'',
      matrix = [[0, 0, 0],
                [1, 1, 1],
                [0, 1, 0]],
      color = ''yellow''\<rparr>]"

definition ALL_SHAPE_ANGLES :: "int list" where
  "ALL_SHAPE_ANGLES = [0, 90, 180, 270]"

text \<open>The template literal \<open>`shape${id}`\<close> prints the number in decimal.\<close>

fun showNat :: "nat \<Rightarrow> string" where
  "showNat n =
     (if n < 10 then [''0123456789'' ! n]
      else showNat (n div 10) @ [''0123456789'' ! (n mod 10)])"

declare showNat.simps [simp del]

definition showInt :: "int \<Rightarrow> string" where
  "showInt i = (if i < 0 then ''-'' @ showNat (nat (- i)) else showNat (nat i))"

definition renderBlocksFromShape :: "Shape \<Rightarrow> error + SingleBlock list" where
  "renderBlocksFromShape shape =
     (let rotateCount = map_option (\<lambda>a. jsRemQ (of_int a / 90) 4) (angle shape) in
      bindE (rotateMatrixNTimes rotateCount (cells (matrix (shape_type shape))))
        (\<lambda>rotatedMatrix.
           Inr (List.map_filter (\<lambda>block. block)
             (concat (map (\<lambda>(rowIndex, row).
                map (\<lambda>(colIndex, v).
                  if v = Some 1
                  then Some \<lparr>blk_x = shape_x shape + int colIndex * Block_WIDTH,
                             blk_y = shape_y shape + int rowIndex * Block_HEIGHT,
                             blk_width = Block_WIDTH,
                             blk_height = Block_HEIGHT\<rparr>
                  else None)
                  (indexed row))
                (indexed rotatedMatrix))))))"

text \<open>
  \<open>createShape\<close> throws when the type index is outside the catalog
  (\<open>randomType.matrix\<close> on \<open>undefined\<close>); an angle index outside the table only
  leaves the angle \<open>undefined\<close>.
\<close>

definition createShape :: "rat \<times> rat \<Rightarrow> int \<Rightarrow> error + Shape" where
  "createShape randomPair ident =
     (let randomType = lookup ALL_SHAPE_TYPES
            (scaleToRange (fst randomPair) 0 (int (length ALL_SHAPE_TYPES) - 1));
          randomAngle = lookup ALL_SHAPE_ANGLES
            (scaleToRange (snd randomPair) 0 (int (length ALL_SHAPE_ANGLES) - 1))
      in case randomType of
           None \<Rightarrow> Inl TypeError
         | Some t \<Rightarrow>
            (case lookup (matrix t) 0 of
               None \<Rightarrow> Inl TypeError
             | Some row0 \<Rightarrow>
                Inr \<lparr>shape_id = ''shape'' @ showInt ident,
                     shape_x = 0,
                     shape_y = 0,
                     angle = randomAngle,
                     shape_type = t,
                     blocks = [],
                     shape_width = Block_WIDTH * int (length row0),
                     shape_height = Block_HEIGHT * int (length (matrix t)),
                     shape_fix = False\<rparr>))"

definition createObstacle :: "int \<Rightarrow> int \<Rightarrow> int \<Rightarrow> Shape" where
  "createObstacle ident ox oy =
     \<lparr>shape_id = ''shape'' @ showInt ident,
      shape_x = ox,
      shape_y = oy,
      angle = Some 0,
      shape_type = \<lparr>type_name = ''Obstacle'', matrix = [[1]], color = ''grey''\<rparr>,
      blocks = [],
      shape_width = Block_WIDTH,
      shape_height = Block_HEIGHT,
      shape_fix = True\<rparr>"

text \<open>The blocks of all fixed shapes, as \<open>updateShape\<close> collects them.\<close>

definition allBlocks :: "State \<Rightarrow> SingleBlock list" where
  "allBlocks s = concat (map blocks (fixedShapes s))"

definition canUpdate :: "SingleBlock list \<Rightarrow> SingleBlock list \<Rightarrow> bool" where
  "canUpdate newBlocks fixedBlocks =
     (let insideGrid = list_all (\<lambda>b.
            blk_x b \<ge> 0 \<and> blk_x b < CANVAS_WIDTH \<and> blk_y b < CANVAS_HEIGHT) newBlocks;
          noOverlapBlocks = (\<not> list_ex (\<lambda>block1.
            list_ex (\<lambda>block2. blk_x block1 = blk_x block2 \<and> blk_y block1 = blk_y block2)
              fixedBlocks) newBlocks)
      in noOverlapBlocks \<and> insideGrid)"

definition isFix :: "SingleBlock list \<Rightarrow> SingleBlock list \<Rightarrow> bool" where
  "isFix newBlocks fixedBlocks =
     (let hasCollisions = list_ex (\<lambda>block1.
            list_ex (\<lambda>block2.
              blk_x block1 = blk_x block2 \<and> blk_y block1 = blk_y block2 - Block_HEIGHT)
              fixedBlocks) newBlocks;
          hitGround = list_ex (\<lambda>block. blk_y block = CANVAS_HEIGHT - Block_HEIGHT) newBlocks
      in hasCollisions \<or> hitGround)"

definition updateShape :: "State \<Rightarrow> Shape \<Rightarrow> error + Shape option" where
  "updateShape s newShape =
     (if shape_fix newShape then Inr (currentShape s)
      else bindE (renderBlocksFromShape newShape) (\<lambda>newBlocks.
        Inr (if canUpdate newBlocks (allBlocks s)
             then Some (newShape\<lparr>blocks := newBlocks,
                                  shape_fix := isFix newBlocks (allBlocks s)\<rparr>)
             else currentShape s)))"

definition updateStateWithNewShape :: "State \<Rightarrow> Shape \<Rightarrow> error + State" where
  "updateStateWithNewShape s newShape =
     bindE (updateShape s newShape) (\<lambda>updatedShape.
       if gameEnd s then Inr s
       else case updatedShape of
              None \<Rightarrow> Inr s
            | Some u \<Rightarrow>
               if shape_fix u
               then Inr (s\<lparr>currentShape := None, fixedShapes := fixedShapes s @ [u]\<rparr>)
               else Inr (s\<lparr>currentShape := Some u\<rparr>))"

text \<open>
  The wall kicks reduce over the blocks from \<open>Infinity\<close> and \<open>-Infinity\<close>; the
  accumulator is \<open>None\<close> while it is still infinite, and an infinite value passes
  neither comparison.
\<close>

definition leftMostBlockX :: "SingleBlock list \<Rightarrow> int option" where
  "leftMostBlockX bs =
     foldl (\<lambda>smallestX b.
       case smallestX of None \<Rightarrow> Some (blk_x b) | Some m \<Rightarrow> Some (min m (blk_x b))) None bs"

definition rightMostBlockX :: "SingleBlock list \<Rightarrow> int option" where
  "rightMostBlockX bs =
     foldl (\<lambda>largestX b.
       case largestX of None \<Rightarrow> Some (blk_x b) | Some m \<Rightarrow> Some (max m (blk_x b))) None bs"

definition kickShapeLeftWall :: "Shape \<Rightarrow> Shape" where
  "kickShapeLeftWall shape =
     (let offset = - shape_x shape in
      if (case leftMostBlockX (blocks shape) of None \<Rightarrow> False | Some m \<Rightarrow> m \<le> Block_WIDTH)
      then shape\<lparr>shape_x := shape_x shape + offset\<rparr>
      else shape)"

definition kickShapeRightWall :: "Shape \<Rightarrow> Shape" where
  "kickShapeRightWall shape =
     (let offset = CANVAS_WIDTH - (shape_x shape + shape_width shape) in
      if (case rightMostBlockX (blocks shape) of
            None \<Rightarrow> False
          | Some m \<Rightarrow> m \<ge> CANVAS_WIDTH - 2 * Block_WIDTH)
      then shape\<lparr>shape_x := shape_x shape + offset\<rparr>
      else shape)"

definition rotateKickShape :: "Shape \<Rightarrow> Shape" where
  "rotateKickShape shape =
     foldl (\<lambda>accShape func. func accShape) shape [kickShapeLeftWall, kickShapeRightWall]"

section \<open>The grid (utils.ts)\<close>

text \<open>
  \<open>Array.prototype.slice\<close>: each bound is rounded towards zero, a negative bound
  counts from the end, and both are clamped to the array.
\<close>

definition relIndex :: "nat \<Rightarrow> int \<Rightarrow> nat" where
  "relIndex len k = (if k < 0 then nat (max (int len + k) 0) else nat (min k (int len)))"

definition slice :: "'a list \<Rightarrow> int \<Rightarrow> int \<Rightarrow> 'a list" where
  "slice xs start stop =
     (let k = relIndex (length xs) start; final = relIndex (length xs) stop
      in take (final - k) (drop k xs))"

definition sliceFrom :: "'a list \<Rightarrow> int \<Rightarrow> 'a list" where
  "sliceFrom xs start = drop (relIndex (length xs) start) xs"

definition replace :: "'a list \<Rightarrow> 'a \<Rightarrow> rat \<Rightarrow> 'a list" where
  "replace array newItem index =
     slice array 0 (trunc index) @ [newItem] @ sliceFrom array (trunc (index + 1))"

text \<open>
  Reading \<open>array[k]\<close> for a number \<open>k\<close> that need not be an index: \<open>undefined\<close>
  unless \<open>k\<close> is an integer inside the array.
\<close>

definition element :: "'a list \<Rightarrow> rat \<Rightarrow> 'a option" where
  "element xs k = (if k = of_int \<lfloor>k\<rfloor> then lookup xs \<lfloor>k\<rfloor> else None)"

text \<open>
  \<open>updateGrid\<close> throws when a position names no row of the grid: \<open>replace\<close> then
  calls \<open>slice\<close> on \<open>undefined\<close>.
\<close>

definition updateGrid :: "NumbersMatrix \<Rightarrow> GridPosition list \<Rightarrow> error + NumbersMatrix" where
  "updateGrid oldGrid positions =
     foldl (\<lambda>acc p. bindE acc (\<lambda>accGrid.
        case element accGrid (pos_y p) of
          None \<Rightarrow> Inl TypeError
        | Some rowToUpdate \<Rightarrow>
            (let updatedRow = replace rowToUpdate 1 (pos_x p);
                 updatedGrid = replace accGrid updatedRow (pos_y p)
             in Inr updatedGrid)))
       (Inr oldGrid) positions"

definition constructGrid ::
  "int \<Rightarrow> int \<Rightarrow> GridPosition list option \<Rightarrow> error + NumbersMatrix" where
  "constructGrid w h positions =
     (let emptyGrid = replicate (nat h) (replicate (nat w) 0) in
      case positions of None \<Rightarrow> Inr emptyGrid | Some ps \<Rightarrow> updateGrid emptyGrid ps)"

definition findFullRowsOfGrid :: "NumbersMatrix \<Rightarrow> int list" where
  "findFullRowsOfGrid grid =
     foldl (\<lambda>accArray (rowIndex, row).
        let isFull = list_all (\<lambda>cell. cell = 1) row in
        if isFull then accArray @ [int rowIndex] else accArray)
       [] (indexed grid)"

section \<open>The actions (states.ts)\<close>

definition getGridPositionsFromState :: "State \<Rightarrow> GridPosition list" where
  "getGridPositionsFromState s =
     map (\<lambda>b. \<lparr>pos_x = of_int (blk_x b) / of_int Block_WIDTH,
               pos_y = of_int (blk_y b) / of_int Block_HEIGHT\<rparr>)
       (concat (map blocks (fixedShapes s)))"

definition initialShape :: Shape where
  "initialShape =
     (projr (createShape (0, 0) 1))\<lparr>shape_x := SPAWN_PREVIEW_X, shape_y := SPAWN_PREVIEW_Y\<rparr>"

definition INITIAL_STATE :: State where
  "INITIAL_STATE =
     \<lparr>gameEnd = False,
      currentShape = None,
      nextShape = initialShape,
      fixedShapes = [],
      stats = \<lparr>level = 1, highScore = 0, score = 0\<rparr>,
      dropRate = Block_HEIGHT,
      obstacles = [],
      levelUp = False,
      tulips = None\<rparr>"

definition AddShapeAction :: "rat \<times> rat \<Rightarrow> State \<Rightarrow> error + State" where
  "AddShapeAction randomPair s =
     bindE (createShape randomPair
              (int (length (fixedShapes s)) - int (length (obstacles s)) + 2))
       (\<lambda>newShape.
          Inr (s\<lparr>currentShape :=
                   Some ((nextShape s)\<lparr>shape_x := SPAWN_CANVAS_X, shape_y := SPAWN_CANVAS_Y\<rparr>),
                 nextShape :=
                   newShape\<lparr>shape_x := SPAWN_PREVIEW_X, shape_y := SPAWN_PREVIEW_Y\<rparr>\<rparr>))"

definition MoveAction :: "Movement \<Rightarrow> State \<Rightarrow> error + State" where
  "MoveAction movement s =
     (case currentShape s of
        None \<Rightarrow> Inr s
      | Some oldShape \<Rightarrow>
          (let newShape = oldShape\<lparr>shape_x := shape_x oldShape + deltaX movement,
                                   shape_y := shape_y oldShape + deltaY movement\<rparr>
           in updateStateWithNewShape s newShape))"

definition RotateAction :: "State \<Rightarrow> error + State" where
  "RotateAction s =
     (case currentShape s of
        None \<Rightarrow> Inr s
      | Some cur \<Rightarrow>
          (let newShape = rotateKickShape
                 (cur\<lparr>angle := map_option (\<lambda>a. jsRem (a + 90) 360) (angle cur)\<rparr>)
           in updateStateWithNewShape s newShape))"

definition fullRowsYCoordinates :: "State \<Rightarrow> error + int list" where
  "fullRowsYCoordinates s =
     bindE (constructGrid GRID_WIDTH GRID_HEIGHT (Some (getGridPositionsFromState s)))
       (\<lambda>currentGrid.
          Inr (map (\<lambda>index. index * Block_HEIGHT) (findFullRowsOfGrid currentGrid)))"

definition adjustBlocks :: "int list \<Rightarrow> SingleBlock list \<Rightarrow> SingleBlock list" where
  "adjustBlocks fullRows bs =
     map (\<lambda>block.
        let countClearRowsBelowBlock =
              int (length (filter (\<lambda>clearRow. clearRow > blk_y block) fullRows))
        in block\<lparr>blk_y := blk_y block + blk_height block * countClearRowsBelowBlock\<rparr>)
       (filter (\<lambda>b. \<not> List.member fullRows (blk_y b)) bs)"

definition ScoreAction :: "State \<Rightarrow> error + State" where
  "ScoreAction s =
     bindE (fullRowsYCoordinates s) (\<lambda>fullRows.
       let newFixedShapes =
             map (\<lambda>shape. shape\<lparr>blocks := adjustBlocks fullRows (blocks shape)\<rparr>)
               (fixedShapes s);
           newScore = score (stats s) + int (length fullRows) * level (stats s)
       in Inr (s\<lparr>stats := (stats s)\<lparr>score := newScore\<rparr>,
                 fixedShapes := newFixedShapes\<rparr>))"

definition EndGameAction :: "State \<Rightarrow> error + State" where
  "EndGameAction s =
     (case currentShape s of
        None \<Rightarrow> Inr s
      | Some cur \<Rightarrow>
          (let isEnd = list_all (\<lambda>block. blk_y block - blk_height block < 0) (blocks cur)
           in Inr (s\<lparr>gameEnd := isEnd\<rparr>)))"

definition RestartGameAction :: "State \<Rightarrow> error + State" where
  "RestartGameAction s =
     (if gameEnd s
      then Inr (INITIAL_STATE
             \<lparr>stats := \<lparr>level = 1,
                        highScore = (if highScore (stats s) > score (stats s)
                                     then highScore (stats s) else score (stats s)),
                        score = 0\<rparr>,
              gameEnd := False\<rparr>)
      else Inr s)"

definition CheckLevelUpAction :: "State \<Rightarrow> error + State" where
  "CheckLevelUpAction s =
     (let isLevelUp = (score (stats s) \<ge> level (stats s) * 10)
      in Inr (s\<lparr>levelUp := isLevelUp\<rparr>))"

definition addObstacle :: "rat \<times> rat \<Rightarrow> State \<Rightarrow> error + State" where
  "addObstacle randomPair s =
     (let scaleX = scaleToRange (fst randomPair) 0 (GRID_WIDTH - 1);
          scaleY = scaleToRange (snd randomPair) (GRID_HEIGHT div 2) (GRID_HEIGHT - 1);
          actualX = scaleX * Block_WIDTH;
          actualY = scaleY * Block_HEIGHT;
          newObstacle = createObstacle (- (int (length (obstacles s)) + 1)) actualX actualY
      in bindE (renderBlocksFromShape newObstacle) (\<lambda>bs.
           let newObstaclesArray = obstacles s @ [newObstacle\<lparr>blocks := bs\<rparr>]
           in Inr (INITIAL_STATE
                \<lparr>stats := (stats s)\<lparr>level := level (stats s) + 1\<rparr>,
                 fixedShapes := newObstaclesArray,
                 obstacles := newObstaclesArray\<rparr>)))"

definition NextLevelAction :: "rat \<times> rat \<Rightarrow> State \<Rightarrow> error + State" where
  "NextLevelAction randomPair s = (if levelUp s then addObstacle randomPair s else Inr s)"

definition TickAction :: "State \<Rightarrow> error + State" where
  "TickAction s =
     (if gameEnd s \<or> levelUp s then Inr s
      else foldl bindE (Inr s)
             [CheckLevelUpAction,
              MoveAction \<lparr>deltaX = 0, deltaY = dropRate s\<rparr>,
              ScoreAction,
              EndGameAction])"

definition GameCycleAction :: "rat \<times> rat \<Rightarrow> State \<Rightarrow> error + State" where
  "GameCycleAction randomPair s =
     (if levelUp s then NextLevelAction randomPair s
      else if gameEnd s then RestartGameAction s
      else AddShapeAction randomPair s)"

text \<open>The closed set of actions and the reducer \<open>reduceState\<close>.\<close>

datatype Action =
    AddShape "rat \<times> rat"
  | Move Movement
  | Rotate
  | Score
  | EndGame
  | RestartGame
  | CheckLevelUp
  | NextLevel "rat \<times> rat"
  | Tick
  | GameCycle "rat \<times> rat"

fun applyAction :: "Action \<Rightarrow> State \<Rightarrow> error + State" where
  "applyAction (AddShape p) s = AddShapeAction p s"
| "applyAction (Move m) s = MoveAction m s"
| "applyAction Rotate s = RotateAction s"
| "applyAction Score s = ScoreAction s"
| "applyAction EndGame s = EndGameAction s"
| "applyAction RestartGame s = RestartGameAction s"
| "applyAction CheckLevelUp s = CheckLevelUpAction s"
| "applyAction (NextLevel p) s = NextLevelAction p s"
| "applyAction Tick s = TickAction s"
| "applyAction (GameCycle p) s = GameCycleAction p s"

definition reduceState :: "State \<Rightarrow> Action \<Rightarrow> error + State" where
  "reduceState s action = applyAction action s"

text \<open>
  The states of a run: \<open>scan(reduceState, INITIAL_STATE)\<close> over a stream of actions,
  as long as no action throws.
\<close>

inductive reachable :: "State \<Rightarrow> bool" where
  initial: "reachable INITIAL_STATE"
| step: "reachable s \<Longrightarrow> reduceState s a = Inr s' \<Longrightarrow> reachable s'"

text \<open>
  The state after a finite run of actions from \<open>s\<close>, and the actions that the keyboard
  stream emits (observables.ts): \<open>KeyA\<close>, \<open>KeyD\<close> and \<open>KeyS\<close> move the shape by one block
  to the left, to the right and down.
\<close>

fun runActions :: "State \<Rightarrow> Action list \<Rightarrow> error + State" where
  "runActions s [] = Inr s"
| "runActions s (a # as) = bindE (reduceState s a) (\<lambda>s'. runActions s' as)"

definition leftKey :: Action where
  "leftKey = Move \<lparr>deltaX = - Block_WIDTH, deltaY = 0\<rparr>"



section \<open>Notions used to state the properties\<close>

text \<open>
  The matrix \<open>rot m\<close> is the clockwise quarter turn of \<open>m\<close>, cell by cell: row \<open>i\<close>
  of the result is column \<open>i\<close> of \<open>m\<close> read from the bottom.
\<close>

definition rot :: "'a list list \<Rightarrow> 'a list list" where
  "rot m = map (\<lambda>i. map (\<lambda>j. m ! (length m - 1 - j) ! i) [0..<length m]) [0..<length m]"

text \<open>
  \<open>rotateMatrix\<close> throws exactly when a row is longer than the matrix has rows; a
  matrix without such a row is called well shaped. Every square matrix is well shaped.
\<close>

definition wellShaped :: "'a list list \<Rightarrow> bool" where
  "wellShaped m = list_all (\<lambda>row. length row \<le> length m) m"









text \<open>In a run the obstacles number one less than the level.\<close>

definition obstacleInvariant :: "State \<Rightarrow> bool" where
  "obstacleInvariant s = (int (length (obstacles s)) = level (stats s) - 1)"

text \<open>
  The words of the row-clear property. A block is on the grid when its corner is one
  of the 10 by 20 cell corners of the canvas. A row, named by its \<open>y\<close> coordinate, is
  occupied by a list of blocks when every one of its cells holds a block of the list.
  \<open>occupiedRows\<close> lists the occupied rows of the fixed blocks from the top down.
\<close>

definition onGrid :: "SingleBlock \<Rightarrow> bool" where
  "onGrid b =
     (0 \<le> blk_x b \<and> blk_x b < CANVAS_WIDTH \<and> blk_x b mod Block_WIDTH = 0
      \<and> 0 \<le> blk_y b \<and> blk_y b < CANVAS_HEIGHT \<and> blk_y b mod Block_HEIGHT = 0)"

definition rowOccupied :: "SingleBlock list \<Rightarrow> int \<Rightarrow> bool" where
  "rowOccupied bs y =
     list_all (\<lambda>c. list_ex (\<lambda>b. blk_x b = int c * Block_WIDTH \<and> blk_y b = y) bs)
       [0..<nat GRID_WIDTH]"

definition occupiedRows :: "State \<Rightarrow> int list" where
  "occupiedRows s =
     filter (rowOccupied (allBlocks s)) (map (\<lambda>r. int r * Block_HEIGHT) [0..<nat GRID_HEIGHT])"

text \<open>
  Notions for the grid that \<open>ScoreAction\<close> builds: a grid of \<open>h\<close> rows of \<open>w\<close> cells,
  the grid without blocks, the cell (column and row) of a block on the grid, and the
  marking of one cell, which is what one step of \<open>updateGrid\<close> does inside the grid.
\<close>

definition gridShape :: "nat \<Rightarrow> nat \<Rightarrow> NumbersMatrix \<Rightarrow> bool" where
  "gridShape w h g = (length g = h \<and> (\<forall>row \<in> set g. length row = w))"

definition emptyGrid :: NumbersMatrix where
  "emptyGrid = replicate 20 (replicate 10 0)"

definition cellOf :: "SingleBlock \<Rightarrow> nat \<times> nat" where
  "cellOf b = (nat (blk_x b div Block_WIDTH), nat (blk_y b div Block_HEIGHT))"

definition mark :: "NumbersMatrix \<Rightarrow> nat \<times> nat \<Rightarrow> NumbersMatrix" where
  "mark g cr = g[snd cr := (g ! snd cr)[fst cr := 1]]"

section \<open>Example data\<close>




text \<open>
  A state at level 3 that is about to level up, and the state that follows it for the
  random pair \<open>(0, 0)\<close>.
\<close>

definition levelThreeState :: State where
  "levelThreeState =
     INITIAL_STATE\<lparr>stats := \<lparr>level = 3, highScore = 30, score = 30\<rparr>, levelUp := True\<rparr>"

definition levelThreeObstacle :: Shape where
  "levelThreeObstacle =
     (createObstacle (- 1) 100 300)
       \<lparr>blocks := [\<lparr>blk_x = 100, blk_y = 300, blk_width = 20, blk_height = 20\<rparr>]\<rparr>"

definition levelFourState :: State where
  "levelFourState =
     INITIAL_STATE\<lparr>stats := \<lparr>level = 4, highScore = 30, score = 30\<rparr>,
                    fixedShapes := [levelThreeObstacle],
                    obstacles := [levelThreeObstacle]\<rparr>"

text \<open>
  A shape falling next to the right wall above one obstacle, and a shape that hangs
  over the left wall with its empty first column.
\<close>

definition fallingShape :: Shape where
  "fallingShape =
     initialShape\<lparr>shape_x := 140, shape_y := 260,
       blocks := [\<lparr>blk_x = 160, blk_y = 260, blk_width = 20, blk_height = 20\<rparr>,
                  \<lparr>blk_x = 180, blk_y = 260, blk_width = 20, blk_height = 20\<rparr>,
                  \<lparr>blk_x = 140, blk_y = 280, blk_width = 20, blk_height = 20\<rparr>,
                  \<lparr>blk_x = 160, blk_y = 280, blk_width = 20, blk_height = 20\<rparr>]\<rparr>"

definition canvasState :: State where
  "canvasState =
     INITIAL_STATE\<lparr>currentShape := Some fallingShape,
                    fixedShapes := [levelThreeObstacle],
                    obstacles := [levelThreeObstacle]\<rparr>"

definition leftShape :: Shape where
  "leftShape =
     initialShape\<lparr>shape_x := - 20, shape_y := 100, angle := Some 270,
       blocks := [\<lparr>blk_x = 0, blk_y = 100, blk_width = 20, blk_height = 20\<rparr>,
                  \<lparr>blk_x = 0, blk_y = 120, blk_width = 20, blk_height = 20\<rparr>,
                  \<lparr>blk_x = 20, blk_y = 120, blk_width = 20, blk_height = 20\<rparr>,
                  \<lparr>blk_x = 20, blk_y = 140, blk_width = 20, blk_height = 20\<rparr>]\<rparr>"

text \<open>
  The state after the first game cycle with the random pair \<open>(0, 0)\<close>, and the state
  one tick later.
\<close>

definition spawnedState :: State where
  "spawnedState =
     INITIAL_STATE\<lparr>currentShape := Some (initialShape\<lparr>shape_x := 60\<rparr>),
                    nextShape := initialShape\<lparr>shape_id := ''shape2''\<rparr>\<rparr>"

definition tickedShape :: Shape where
  "tickedShape =
     initialShape\<lparr>shape_x := 60, shape_y := 20,
       blocks := [\<lparr>blk_x = 80, blk_y = 20, blk_width = 20, blk_height = 20\<rparr>,
                  \<lparr>blk_x = 100, blk_y = 20, blk_width = 20, blk_height = 20\<rparr>,
                  \<lparr>blk_x = 60, blk_y = 40, blk_width = 20, blk_height = 20\<rparr>,
                  \<lparr>blk_x = 80, blk_y = 40, blk_width = 20, blk_height = 20\<rparr>]\<rparr>"

definition tickedState :: State where
  "tickedState = spawnedState\<lparr>currentShape := Some tickedShape\<rparr>"

text \<open>
  A board for a row clear: ten fixed blocks fill the row at \<open>y = 360\<close>, two blocks lie
  above it and one below, at level 2 with score 5; and the board after the clear.
\<close>

definition unitBlock :: "int \<Rightarrow> int \<Rightarrow> SingleBlock" where
  "unitBlock px py = \<lparr>blk_x = px, blk_y = py, blk_width = 20, blk_height = 20\<rparr>"

definition clearState :: State where
  "clearState =
     INITIAL_STATE
       \<lparr>fixedShapes :=
          [(createObstacle (- 1) 0 360)\<lparr>blocks := map (\<lambda>c. unitBlock (c * 20) 360) [0, 1, 2, 3, 4, 5, 6, 7, 8, 9]\<rparr>,
           (createObstacle (- 2) 0 320)\<lparr>blocks := [unitBlock 0 340, unitBlock 40 320]\<rparr>,
           (createObstacle (- 3) 40 380)\<lparr>blocks := [unitBlock 40 380]\<rparr>],
        stats := \<lparr>level = 2, highScore = 0, score = 5\<rparr>\<rparr>"

definition clearedState :: State where
  "clearedState =
     INITIAL_STATE
       \<lparr>fixedShapes :=
          [(createObstacle (- 1) 0 360)\<lparr>blocks := []\<rparr>,
           (createObstacle (- 2) 0 320)\<lparr>blocks := [unitBlock 0 360, unitBlock 40 340]\<rparr>,
           (createObstacle (- 3) 40 380)\<lparr>blocks := [unitBlock 40 380]\<rparr>],
        stats := \<lparr>level = 2, highScore = 0, score = 7\<rparr>\<rparr>"

text \<open>
  The shape I at the top of the canvas with its rasterization, upright (angle 0, its
  blocks in the third column of its box) and lying (angle 90, its blocks in the third
  row), and the state in which it is the current shape; the state is the one that a
  run reaches when both cycle events draw an upright I and the player moves it
  sideways.
\<close>

definition standingI :: "int \<Rightarrow> Shape" where
  "standingI x =
     \<lparr>shape_id = ''shape2'', shape_x = x, shape_y = 0, angle = Some 0,
      shape_type = \<lparr>type_name = ''I'',
                    matrix = [[0, 0, 1, 0], [0, 0, 1, 0], [0, 0, 1, 0], [0, 0, 1, 0]],
                    color = ''orange''\<rparr>,
      blocks = [\<lparr>blk_x = x + 40, blk_y = 0, blk_width = 20, blk_height = 20\<rparr>,
                \<lparr>blk_x = x + 40, blk_y = 20, blk_width = 20, blk_height = 20\<rparr>,
                \<lparr>blk_x = x + 40, blk_y = 40, blk_width = 20, blk_height = 20\<rparr>,
                \<lparr>blk_x = x + 40, blk_y = 60, blk_width = 20, blk_height = 20\<rparr>],
      shape_width = 80, shape_height = 80, shape_fix = False\<rparr>"

definition lyingI :: "int \<Rightarrow> Shape" where
  "lyingI x =
     (standingI x)
       \<lparr>angle := Some 90,
        blocks := [\<lparr>blk_x = x, blk_y = 40, blk_width = 20, blk_height = 20\<rparr>,
                   \<lparr>blk_x = x + 20, blk_y = 40, blk_width = 20, blk_height = 20\<rparr>,
                   \<lparr>blk_x = x + 40, blk_y = 40, blk_width = 20, blk_height = 20\<rparr>,
                   \<lparr>blk_x = x + 60, blk_y = 40, blk_width = 20, blk_height = 20\<rparr>]\<rparr>"

definition rotateState :: "Shape \<Rightarrow> State" where
  "rotateState cur =
     INITIAL_STATE
       \<lparr>currentShape := Some cur,
        nextShape := (standingI SPAWN_PREVIEW_X)\<lparr>blocks := []\<rparr>\<rparr>"




section \<open>Basic facts\<close>

lemmas const_defs =
  CANVAS_WIDTH_def CANVAS_HEIGHT_def PREVIEW_WIDTH_def PREVIEW_HEIGHT_def
  GRID_WIDTH_def GRID_HEIGHT_def Block_WIDTH_def Block_HEIGHT_def
  SPAWN_CANVAS_X_def SPAWN_CANVAS_Y_def SPAWN_PREVIEW_X_def SPAWN_PREVIEW_Y_def

lemma Block_WIDTH_eq: "Block_WIDTH = 20"
  by (simp add: const_defs)

lemma Block_HEIGHT_eq: "Block_HEIGHT = 20"
  by (simp add: const_defs)

lemma bindE_Inr [simp]: "bindE (Inr v) f = f v"
  by (simp add: bindE_def)

lemma bindE_Inl [simp]: "bindE (Inl e) f = Inl e"
  by (simp add: bindE_def)

lemma bindE_eq_Inr: "bindE r f = Inr w \<longleftrightarrow> (\<exists>v. r = Inr v \<and> f v = Inr w)"
  by (cases r) simp_all

lemma reachable_runActions:
  "reachable s \<Longrightarrow> runActions s as = Inr s' \<Longrightarrow> reachable s'"
proof (induction as arbitrary: s)
  case Nil
  then show ?case by simp
next
  case (Cons a as)
  from Cons.prems(2) obtain t where t: "reduceState s a = Inr t" and r: "runActions t as = Inr s'"
    by (auto simp: bindE_eq_Inr)
  from Cons.prems(1) t have "reachable t" by (rule reachable.step)
  from Cons.IH [OF this r] show ?case .
qed

lemma sequenceE_map_Inr:
  "(\<And>x. x \<in> set xs \<Longrightarrow> f x = Inr (g x)) \<Longrightarrow> sequenceE (map f xs) = Inr (map g xs)"
  by (induction xs) simp_all

lemma map_indexed:
  "map (\<lambda>(i, row). F i row) (indexed xs) = map (\<lambda>i. F i (xs ! i)) [0..<length xs]"
  by (rule nth_equalityI) (simp_all add: indexed_def nth_enumerate_eq)

section \<open>Rotation of square matrices\<close>

lemma square_nth: "square m \<Longrightarrow> i < length m \<Longrightarrow> length (m ! i) = length m"
  by (simp add: square_def list_all_length)

lemma rotateMatrix_square:
  assumes sq: "square m"
  shows "rotateMatrix m = Inr (rot m)"
proof -
  let ?n = "length m"
  have inner: "sequenceE (map (\<lambda>j.
          case lookup m (int ?n - int j - 1) of
            None \<Rightarrow> Inl TypeError
          | Some r \<Rightarrow> Inr (case lookup r (int i) of None \<Rightarrow> None | Some v \<Rightarrow> v))
          [0..<length (m ! i)]) = Inr (map (\<lambda>j. m ! (?n - 1 - j) ! i) [0..<?n])"
    if i: "i < ?n" for i
  proof -
    have len: "length (m ! i) = ?n" using sq i by (rule square_nth)
    show ?thesis unfolding len
    proof (rule sequenceE_map_Inr)
      fix j assume "j \<in> set [0..<?n]"
      then have j: "j < ?n" by simp
      then have idx: "nat (int ?n - int j - 1) = ?n - 1 - j" by linarith
      have "length (m ! (?n - 1 - j)) = ?n" using sq j by (intro square_nth) simp_all
      with i j idx show "(case lookup m (int ?n - int j - 1) of
            None \<Rightarrow> Inl TypeError
          | Some r \<Rightarrow> Inr (case lookup r (int i) of None \<Rightarrow> None | Some v \<Rightarrow> v))
          = Inr (m ! (?n - 1 - j) ! i)"
        by (simp add: lookup_def)
    qed
  qed
  show ?thesis
    unfolding rotateMatrix_def Let_def map_indexed rot_def
    by (rule sequenceE_map_Inr) (simp add: inner)
qed

lemma square_rot: "square m \<Longrightarrow> square (rot m)"
  by (simp add: square_def rot_def list_all_length)

lemma length_rot: "length (rot m) = length m"
  by (simp add: rot_def)

lemma rot_nth:
  "i < length m \<Longrightarrow> j < length m \<Longrightarrow> rot m ! i ! j = m ! (length m - 1 - j) ! i"
  by (simp add: rot_def)

lemma rot4:
  assumes sq: "square m"
  shows "rot (rot (rot (rot m))) = m"
proof (rule nth_equalityI)
  show "length (rot (rot (rot (rot m)))) = length m" by (simp add: length_rot)
next
  fix i assume "i < length (rot (rot (rot (rot m))))"
  then have i: "i < length m" by (simp add: length_rot)
  show "rot (rot (rot (rot m))) ! i = m ! i"
  proof (rule nth_equalityI)
    show "length (rot (rot (rot (rot m))) ! i) = length (m ! i)"
      using i sq by (simp add: rot_def square_nth)
  next
    fix j assume "j < length (rot (rot (rot (rot m))) ! i)"
    then have j: "j < length m" using i by (simp add: rot_def)
    from i j show "rot (rot (rot (rot m))) ! i ! j = m ! i ! j"
      by (simp add: rot_nth length_rot)
  qed
qed

lemma square_cells: "square (cells m) = square m"
  by (simp add: square_def cells_def list_all_length)

lemma catalog_square: "list_all (\<lambda>t. square (matrix t)) ALL_SHAPE_TYPES"
  by (simp add: ALL_SHAPE_TYPES_def square_def)

text \<open>
  C9. Four clockwise quarter turns of a square matrix of numbers give the matrix back,
  without an exception: the fourfold composition of \<open>rotateMatrix\<close> returns its
  argument, and so does \<open>rotateMatrixNTimes(4)\<close> (which, taking the count modulo 4,
  rotates not at all). Every matrix of the shape catalog is square.
\<close>

theorem rotateMatrix_four_times:
  "(square m \<longrightarrow>
      bindE (bindE (bindE (rotateMatrix (cells m)) rotateMatrix) rotateMatrix) rotateMatrix
        = Inr (cells m)
      \<and> rotateMatrixNTimes (Some 4) (cells m) = Inr (cells m))
   \<and> list_all (\<lambda>t. square (matrix t)) ALL_SHAPE_TYPES"
proof (intro conjI impI)
  assume "square m"
  then have sq: "square (cells m)" by (simp add: square_cells)
  then show "bindE (bindE (bindE (rotateMatrix (cells m)) rotateMatrix) rotateMatrix)
      rotateMatrix = Inr (cells m)"
    by (simp add: rotateMatrix_square square_rot rot4)
next
  show "rotateMatrixNTimes (Some 4) (cells m) = Inr (cells m)"
    by (simp add: rotateMatrixNTimes_def jsRemQ_def trunc_def toLength_def)
next
  show "list_all (\<lambda>t. square (matrix t)) ALL_SHAPE_TYPES"
    by (rule catalog_square)
qed

theorem rotateMatrix_four_times_witness:
  "square [[1, 0, 0], [1, 1, 1], [0, 0, 0 :: int]]
   \<and> matrix (ALL_SHAPE_TYPES ! 1) = [[1, 0, 0], [1, 1, 1], [0, 0, 0]]
   \<and> rotateMatrix (cells [[1, 0, 0], [1, 1, 1], [0, 0, 0]])
       = Inr (cells [[0, 1, 1], [0, 1, 0], [0, 1, 0]])
   \<and> bindE (bindE (bindE (rotateMatrix (cells [[1, 0, 0], [1, 1, 1], [0, 0, 0]])) rotateMatrix)
        rotateMatrix) rotateMatrix = Inr (cells [[1, 0, 0], [1, 1, 1], [0, 0, 0]])"
proof -
  have sq: "square [[1, 0, 0], [1, 1, 1], [0, 0, 0 :: int]]"
    by (simp add: square_def)
  have m: "matrix (ALL_SHAPE_TYPES ! 1) = [[1, 0, 0], [1, 1, 1], [0, 0, 0]]"
    by (simp add: ALL_SHAPE_TYPES_def)
  have r: "rotateMatrix (cells [[1, 0, 0], [1, 1, 1], [0, 0, 0]])
       = Inr (cells [[0, 1, 1], [0, 1, 0], [0, 1, 0]])"
    by code_simp
  from rotateMatrix_four_times [of "[[1, 0, 0], [1, 1, 1], [0, 0, 0]]"] sq
  have "bindE (bindE (bindE (rotateMatrix (cells [[1, 0, 0], [1, 1, 1], [0, 0, 0]])) rotateMatrix)
        rotateMatrix) rotateMatrix = Inr (cells [[1, 0, 0], [1, 1, 1], [0, 0, 0]])"
    by blast
  with sq m r show ?thesis by blast
qed

section \<open>The range of \<open>scaleToRange\<close>\<close>

lemma scaleToRange_below_top:
  assumes "0 \<le> h" and "h \<le> RNG_m - 2"
  shows "10 \<le> scaleToRange (scale h) 10 19 \<and> scaleToRange (scale h) 10 19 \<le> 19"
proof -
  have eq: "(scale h + 1) / 2 * of_int (19 - 10 + 1) + of_int 10
              = of_int (10 * h) / 2147483647 + 10"
    by (simp add: scale_def RNG_m_def)
  have lo: "(0::rat) \<le> of_int (10 * h) / 2147483647"
    using assms by simp
  have "of_int (10 * h) < (10::rat) * 2147483647"
    using assms unfolding RNG_m_def by (simp add: of_int_less_iff [symmetric] del: of_int_less_iff)
  then have hi: "of_int (10 * h) / 2147483647 < (10::rat)"
    by (simp add: divide_less_eq)
  have "10 \<le> \<lfloor>of_int (10 * h) / (2147483647::rat) + 10\<rfloor>"
    using lo by (simp add: le_floor_iff)
  moreover have "\<lfloor>of_int (10 * h) / (2147483647::rat) + 10\<rfloor> < 20"
    using hi by (simp add: floor_less_iff)
  ultimately show ?thesis
    unfolding scaleToRange_def eq by simp
qed

text \<open>
  The bound \<open>m - 2\<close> is needed: \<open>scale\<close> maps \<open>m - 1\<close> to 1, where
  \<open>scaleToRange(1, 10, 19)\<close> is 20.
\<close>

lemma scaleToRange_at_one:
  "scale (RNG_m - 1) = 1 \<and> scaleToRange (scale (RNG_m - 1)) 10 19 = 20"
  by (simp add: scale_def scaleToRange_def RNG_m_def)

section \<open>Rendering never throws on a well-shaped matrix\<close>

lemma sequenceE_map_total:
  "(\<And>x. x \<in> set xs \<Longrightarrow> \<exists>y. f x = Inr y) \<Longrightarrow>
     \<exists>ys. sequenceE (map f xs) = Inr ys \<and> list_all2 (\<lambda>x y. f x = Inr y) xs ys"
proof (induction xs)
  case Nil
  then show ?case by simp
next
  case (Cons a xs)
  then obtain y where y: "f a = Inr y" by auto
  from Cons obtain ys where "sequenceE (map f xs) = Inr ys" "list_all2 (\<lambda>x y. f x = Inr y) xs ys"
    by auto
  with y show ?case by simp
qed

lemma rotateMatrix_wellShaped:
  assumes ws: "wellShaped m"
  shows "\<exists>m'. rotateMatrix m = Inr m' \<and> map length m' = map length m"
proof -
  let ?n = "length m"
  let ?cell = "\<lambda>i j. case lookup m (int ?n - int j - 1) of
            None \<Rightarrow> Inl TypeError
          | Some r \<Rightarrow> Inr (case lookup r (int i) of None \<Rightarrow> None | Some v \<Rightarrow> v)"
  let ?row = "\<lambda>(i, row). sequenceE (map (?cell i) [0..<length row])"
  have row: "\<exists>ys. ?row p = Inr ys \<and> length ys = length (snd p)" if p: "p \<in> set (indexed m)" for p
  proof -
    obtain i r where pr: "p = (i, r)" by (cases p)
    with p have "r \<in> set m" by (auto simp: indexed_def in_set_enumerate_eq)
    then have len: "length r \<le> ?n" using ws by (simp add: wellShaped_def list_all_iff)
    have "\<exists>y. ?cell i j = Inr y" if "j \<in> set [0..<length r]" for j
    proof -
      from that len have "0 \<le> int ?n - int j - 1 \<and> int ?n - int j - 1 < int ?n" by auto
      then show ?thesis by (simp add: lookup_def)
    qed
    from sequenceE_map_total [of "[0..<length r]" "?cell i", OF this]
    obtain ys where "sequenceE (map (?cell i) [0..<length r]) = Inr ys"
      and "list_all2 (\<lambda>x y. ?cell i x = Inr y) [0..<length r] ys" by blast
    then show ?thesis using pr by (auto dest: list_all2_lengthD)
  qed
  then have "\<And>p. p \<in> set (indexed m) \<Longrightarrow> \<exists>ys. ?row p = Inr ys" by blast
  from sequenceE_map_total [of "indexed m" ?row, OF this]
  obtain m' where m': "sequenceE (map ?row (indexed m)) = Inr m'"
    and all2: "list_all2 (\<lambda>p y. ?row p = Inr y) (indexed m) m'" by blast
  have len: "length m' = ?n" using all2 by (auto dest: list_all2_lengthD simp: indexed_def)
  have "map length m' = map length m"
  proof (rule nth_equalityI)
    show "length (map length m') = length (map length m)" using len by simp
  next
    fix i assume "i < length (map length m')"
    then have i: "i < ?n" using len by simp
    then have ilen: "i < length (indexed m)" by (simp add: indexed_def)
    have r1: "?row (indexed m ! i) = Inr (m' ! i)"
      by (rule list_all2_nthD [OF all2 ilen])
    have "indexed m ! i \<in> set (indexed m)" using ilen by simp
    from row [OF this] obtain ys where "?row (indexed m ! i) = Inr ys"
      "length ys = length (snd (indexed m ! i))" by blast
    with r1 have "length (m' ! i) = length (snd (indexed m ! i))" by simp
    then show "map length m' ! i = map length m ! i"
      using i len by (simp add: indexed_def nth_enumerate_eq)
  qed
  with m' show ?thesis unfolding rotateMatrix_def Let_def by blast
qed

lemma wellShaped_lengths:
  "wellShaped m = (\<forall>l\<in>set (map length m). l \<le> length (map length m))"
  by (simp add: wellShaped_def list_all_iff)

lemma wellShaped_map_length:
  "map length m' = map length m \<Longrightarrow> wellShaped m' = wellShaped m"
  by (simp only: wellShaped_lengths)

lemma repeatE_rotateMatrix_wellShaped:
  "wellShaped m \<Longrightarrow> \<exists>m'. repeatE k rotateMatrix m = Inr m'"
proof (induction k arbitrary: m)
  case 0
  then show ?case by simp
next
  case (Suc k)
  from rotateMatrix_wellShaped [OF Suc.prems]
  obtain m1 where m1: "rotateMatrix m = Inr m1" "map length m1 = map length m" by blast
  have "wellShaped m1" using wellShaped_map_length [OF m1(2)] Suc.prems by simp
  from Suc.IH [OF this] obtain m2 where "repeatE k rotateMatrix m1 = Inr m2" by blast
  with m1(1) show ?case by simp
qed

lemma wellShaped_cells: "wellShaped (cells m) = wellShaped m"
  by (simp add: wellShaped_def cells_def list_all_iff)

lemma renderBlocksFromShape_total:
  "wellShaped (matrix (shape_type c)) \<Longrightarrow> \<exists>bs. renderBlocksFromShape c = Inr bs"
proof -
  assume "wellShaped (matrix (shape_type c))"
  then have "wellShaped (cells (matrix (shape_type c)))" by (simp add: wellShaped_cells)
  from repeatE_rotateMatrix_wellShaped [OF this]
  obtain m' where "rotateMatrixNTimes (map_option (\<lambda>a. jsRemQ (of_int a / 90) 4) (angle c))
      (cells (matrix (shape_type c))) = Inr m'"
    unfolding rotateMatrixNTimes_def by blast
  then show ?thesis by (simp add: renderBlocksFromShape_def)
qed


section \<open>The initial state and the obstacles\<close>

lemma floor_numeral_div:
  "\<lfloor>(numeral a :: rat) / numeral b\<rfloor> = numeral a div numeral b"
  using floor_divide_of_int_eq [of "numeral a" "numeral b", where ?'a = rat] by simp

lemma createShape_initial:
  "createShape (0, 0) 1 =
     Inr \<lparr>shape_id = ''shape1'', shape_x = 0, shape_y = 0, angle = Some 180,
          shape_type = \<lparr>type_name = ''S'', matrix = [[0, 0, 0], [0, 1, 1], [1, 1, 0]],
                        color = ''red''\<rparr>,
          blocks = [], shape_width = 60, shape_height = 60, shape_fix = False\<rparr>"
  by (simp add: createShape_def scaleToRange_def ALL_SHAPE_TYPES_def ALL_SHAPE_ANGLES_def
      lookup_def showInt_def showNat.simps const_defs floor_numeral_div)

lemma initialShape_eq:
  "initialShape =
     \<lparr>shape_id = ''shape1'', shape_x = 40, shape_y = 0, angle = Some 180,
      shape_type = \<lparr>type_name = ''S'', matrix = [[0, 0, 0], [0, 1, 1], [1, 1, 0]],
                    color = ''red''\<rparr>,
      blocks = [], shape_width = 60, shape_height = 60, shape_fix = False\<rparr>"
  by (simp add: initialShape_def createShape_initial const_defs)

lemma renderBlocksFromShape_obstacle:
  "renderBlocksFromShape (createObstacle i ox oy) =
     Inr [\<lparr>blk_x = ox, blk_y = oy, blk_width = Block_WIDTH, blk_height = Block_HEIGHT\<rparr>]"
  by (simp add: renderBlocksFromShape_def createObstacle_def rotateMatrixNTimes_def
      jsRemQ_def trunc_def toLength_def cells_def indexed_def List.map_filter_simps)

section \<open>Restart, next level and end of game\<close>

text \<open>
  C8. In a state with \<open>gameEnd\<close> set and \<open>levelUp\<close> clear, \<open>GameCycle\<close> runs
  \<open>RestartGame\<close>: the result is \<open>INITIAL_STATE\<close> with score 0, level 1, \<open>gameEnd\<close>
  false, and as high score the larger of the previous high score and the previous score.
\<close>

theorem GameCycle_restart:
  "gameEnd s \<Longrightarrow> \<not> levelUp s \<Longrightarrow>
     GameCycleAction p s =
       Inr (INITIAL_STATE\<lparr>stats := \<lparr>level = 1,
                                      highScore = max (highScore (stats s)) (score (stats s)),
                                      score = 0\<rparr>,
                           gameEnd := False\<rparr>)
     \<and> GameCycleAction p s = RestartGameAction s"
  by (simp add: GameCycleAction_def RestartGameAction_def max_def)

theorem GameCycle_restart_witness:
  "gameEnd (levelFourState\<lparr>gameEnd := True\<rparr>) \<and> \<not> levelUp (levelFourState\<lparr>gameEnd := True\<rparr>)
   \<and> GameCycleAction (0, 0) (levelFourState\<lparr>gameEnd := True\<rparr>) =
       Inr (INITIAL_STATE\<lparr>stats := \<lparr>level = 1, highScore = 30, score = 0\<rparr>\<rparr>)"
  using GameCycle_restart [of "levelFourState\<lparr>gameEnd := True\<rparr>" "(0, 0)"]
  by (simp add: levelFourState_def INITIAL_STATE_def)




section \<open>Updating a shape\<close>

lemma canUpdate_iff:
  "canUpdate bs fs \<longleftrightarrow>
     (\<forall>b \<in> set bs. 0 \<le> blk_x b \<and> blk_x b < CANVAS_WIDTH \<and> blk_y b < CANVAS_HEIGHT)
     \<and> (\<forall>b \<in> set bs. \<forall>f \<in> set fs. \<not> (blk_x b = blk_x f \<and> blk_y b = blk_y f))"
  by (auto simp: canUpdate_def list_all_iff list_ex_iff)

lemma updateShape_fix: "shape_fix c \<Longrightarrow> updateShape s c = Inr (currentShape s)"
  by (simp add: updateShape_def)

lemma updateShape_rendered:
  "\<not> shape_fix c \<Longrightarrow> renderBlocksFromShape c = Inr bs \<Longrightarrow>
     updateShape s c =
       Inr (if canUpdate bs (allBlocks s)
            then Some (c\<lparr>blocks := bs, shape_fix := isFix bs (allBlocks s)\<rparr>)
            else currentShape s)"
  by (simp add: updateShape_def)

lemma updateShape_Inr:
  assumes "updateShape s c = Inr r"
  shows "r = currentShape s \<or>
     (\<exists>bs. renderBlocksFromShape c = Inr bs \<and> canUpdate bs (allBlocks s)
        \<and> r = Some (c\<lparr>blocks := bs, shape_fix := isFix bs (allBlocks s)\<rparr>))"
proof (cases "shape_fix c")
  case True
  with assms show ?thesis by (simp add: updateShape_fix)
next
  case False
  with assms obtain bs where bs: "renderBlocksFromShape c = Inr bs"
    by (auto simp: updateShape_def bindE_eq_Inr)
  from assms have r: "r = (if canUpdate bs (allBlocks s)
            then Some (c\<lparr>blocks := bs, shape_fix := isFix bs (allBlocks s)\<rparr>)
            else currentShape s)"
    unfolding updateShape_rendered [OF False bs] by simp
  show ?thesis
  proof (cases "canUpdate bs (allBlocks s)")
    case True
    with r have "r = Some (c\<lparr>blocks := bs, shape_fix := isFix bs (allBlocks s)\<rparr>)" by simp
    with bs True show ?thesis by (intro disjI2 exI [of _ bs]) simp
  next
    case False
    with r show ?thesis by simp
  qed
qed

text \<open>
  C1. A candidate that is already fixed is rejected. Any other candidate is rendered
  (without an exception when its matrix is well shaped, as every catalog matrix is) and
  is accepted if and only if \<open>canUpdate\<close> holds of its blocks. Whenever \<open>updateShape\<close>
  returns, the result is either the previous \<open>currentShape\<close>, unchanged, or a shape
  all of whose blocks have \<open>0 \<le> x < CANVAS_WIDTH\<close> and \<open>y < CANVAS_HEIGHT\<close> and none
  of whose blocks coincides with a block of a fixed shape. A rejection is a value, not
  an exception.
\<close>

theorem updateShape_accepts_or_rejects:
  "(shape_fix c \<longrightarrow> updateShape s c = Inr (currentShape s))
   \<and> (\<not> shape_fix c \<and> wellShaped (matrix (shape_type c)) \<longrightarrow>
        (\<exists>bs. renderBlocksFromShape c = Inr bs
           \<and> (if canUpdate bs (allBlocks s)
               then updateShape s c =
                      Inr (Some (c\<lparr>blocks := bs, shape_fix := isFix bs (allBlocks s)\<rparr>))
               else updateShape s c = Inr (currentShape s))))
   \<and> (\<forall>r. updateShape s c = Inr r \<longrightarrow>
        r = currentShape s
        \<or> (\<exists>u. r = Some u
              \<and> (\<forall>b \<in> set (blocks u).
                    0 \<le> blk_x b \<and> blk_x b < CANVAS_WIDTH \<and> blk_y b < CANVAS_HEIGHT)
              \<and> (\<forall>b \<in> set (blocks u). \<forall>f \<in> set (allBlocks s).
                    \<not> (blk_x b = blk_x f \<and> blk_y b = blk_y f))))"
proof (intro conjI impI allI)
  assume "shape_fix c"
  then show "updateShape s c = Inr (currentShape s)" by (rule updateShape_fix)
next
  assume a: "\<not> shape_fix c \<and> wellShaped (matrix (shape_type c))"
  then obtain bs where bs: "renderBlocksFromShape c = Inr bs"
    using renderBlocksFromShape_total by blast
  show "\<exists>bs. renderBlocksFromShape c = Inr bs
           \<and> (if canUpdate bs (allBlocks s)
               then updateShape s c =
                      Inr (Some (c\<lparr>blocks := bs, shape_fix := isFix bs (allBlocks s)\<rparr>))
               else updateShape s c = Inr (currentShape s))"
    using a bs by (intro exI [of _ bs]) (simp add: updateShape_rendered)
next
  fix r assume "updateShape s c = Inr r"
  from updateShape_Inr [OF this]
  show "r = currentShape s
        \<or> (\<exists>u. r = Some u
              \<and> (\<forall>b \<in> set (blocks u).
                    0 \<le> blk_x b \<and> blk_x b < CANVAS_WIDTH \<and> blk_y b < CANVAS_HEIGHT)
              \<and> (\<forall>b \<in> set (blocks u). \<forall>f \<in> set (allBlocks s).
                    \<not> (blk_x b = blk_x f \<and> blk_y b = blk_y f)))"
    by (auto simp: canUpdate_iff)
qed

theorem updateShape_accepts_or_rejects_witness:
  "\<not> shape_fix (fallingShape\<lparr>shape_y := 280\<rparr>)
   \<and> wellShaped (matrix (shape_type (fallingShape\<lparr>shape_y := 280\<rparr>)))
   \<and> updateShape canvasState (fallingShape\<lparr>shape_y := 280\<rparr>) =
        Inr (Some (fallingShape\<lparr>shape_y := 280,
          blocks := [\<lparr>blk_x = 160, blk_y = 280, blk_width = 20, blk_height = 20\<rparr>,
                     \<lparr>blk_x = 180, blk_y = 280, blk_width = 20, blk_height = 20\<rparr>,
                     \<lparr>blk_x = 140, blk_y = 300, blk_width = 20, blk_height = 20\<rparr>,
                     \<lparr>blk_x = 160, blk_y = 300, blk_width = 20, blk_height = 20\<rparr>]\<rparr>))
   \<and> updateShape canvasState (fallingShape\<lparr>shape_x := 160\<rparr>) = Inr (Some fallingShape)
   \<and> updateShape canvasState (fallingShape\<lparr>shape_fix := True\<rparr>) = Inr (Some fallingShape)"
proof -
  let ?c = "fallingShape\<lparr>shape_y := 280\<rparr>"
  let ?bs = "[\<lparr>blk_x = 160, blk_y = 280, blk_width = 20, blk_height = 20\<rparr>,
              \<lparr>blk_x = 180, blk_y = 280, blk_width = 20, blk_height = 20\<rparr>,
              \<lparr>blk_x = 140, blk_y = 300, blk_width = 20, blk_height = 20\<rparr>,
              \<lparr>blk_x = 160, blk_y = 300, blk_width = 20, blk_height = 20\<rparr>]"
  let ?c' = "fallingShape\<lparr>shape_x := 160\<rparr>"
  let ?bs' = "[\<lparr>blk_x = 180, blk_y = 260, blk_width = 20, blk_height = 20\<rparr>,
               \<lparr>blk_x = 200, blk_y = 260, blk_width = 20, blk_height = 20\<rparr>,
               \<lparr>blk_x = 160, blk_y = 280, blk_width = 20, blk_height = 20\<rparr>,
               \<lparr>blk_x = 180, blk_y = 280, blk_width = 20, blk_height = 20\<rparr>]"
  have nofix: "\<not> shape_fix ?c" "\<not> shape_fix ?c'" "shape_fix (fallingShape\<lparr>shape_fix := True\<rparr>)"
    by (simp_all add: fallingShape_def initialShape_eq)
  have ws: "wellShaped (matrix (shape_type ?c))" "wellShaped (matrix (shape_type ?c'))"
    by (simp_all add: fallingShape_def initialShape_eq wellShaped_def)
  have cur: "currentShape canvasState = Some fallingShape"
    by (simp add: canvasState_def)
  have r: "renderBlocksFromShape ?c = Inr ?bs" by code_simp
  have r': "renderBlocksFromShape ?c' = Inr ?bs'" by code_simp
  have can: "canUpdate ?bs (allBlocks canvasState)" by code_simp
  have can': "\<not> canUpdate ?bs' (allBlocks canvasState)" by code_simp
  have nf: "\<not> isFix ?bs (allBlocks canvasState)" by code_simp
  from updateShape_accepts_or_rejects [of ?c canvasState] nofix(1) ws(1) r can nf
  have 1: "updateShape canvasState ?c = Inr (Some (?c\<lparr>blocks := ?bs\<rparr>))"
    by (simp add: fallingShape_def initialShape_eq)
  from updateShape_accepts_or_rejects [of ?c' canvasState] nofix(2) ws(2) r' can' cur
  have 2: "updateShape canvasState ?c' = Inr (Some fallingShape)"
    by simp
  from updateShape_accepts_or_rejects [of "fallingShape\<lparr>shape_fix := True\<rparr>" canvasState]
    nofix(3) cur
  have 3: "updateShape canvasState (fallingShape\<lparr>shape_fix := True\<rparr>) = Inr (Some fallingShape)"
    by simp
  from nofix(1) ws(1) 1 2 3 show ?thesis by simp
qed

section \<open>Moves and rotations after the end of the game\<close>

lemma updateStateWithNewShape_gameEnd:
  "gameEnd s \<Longrightarrow> updateStateWithNewShape s c = Inr s' \<Longrightarrow> s' = s"
  by (auto simp: updateStateWithNewShape_def bindE_eq_Inr)

lemma updateShape_total:
  "shape_fix c \<or> wellShaped (matrix (shape_type c)) \<Longrightarrow> \<exists>r. updateShape s c = Inr r"
proof (cases "shape_fix c")
  case True
  then show ?thesis by (simp add: updateShape_fix)
next
  case False
  assume "shape_fix c \<or> wellShaped (matrix (shape_type c))"
  with False obtain bs where "renderBlocksFromShape c = Inr bs"
    using renderBlocksFromShape_total by blast
  with False show ?thesis by (simp add: updateShape_rendered)
qed

lemma updateStateWithNewShape_gameEnd_total:
  "gameEnd s \<Longrightarrow> shape_fix c \<or> wellShaped (matrix (shape_type c)) \<Longrightarrow>
     updateStateWithNewShape s c = Inr s"
  using updateShape_total [of c s] by (auto simp: updateStateWithNewShape_def)

lemma rotateKickShape_eq: "rotateKickShape sh = kickShapeRightWall (kickShapeLeftWall sh)"
  by (simp add: rotateKickShape_def)

lemma kick_keeps:
  "shape_type (kickShapeLeftWall sh) = shape_type sh"
  "shape_fix (kickShapeLeftWall sh) = shape_fix sh"
  "blocks (kickShapeLeftWall sh) = blocks sh"
  "angle (kickShapeLeftWall sh) = angle sh"
  "shape_type (kickShapeRightWall sh) = shape_type sh"
  "shape_fix (kickShapeRightWall sh) = shape_fix sh"
  "blocks (kickShapeRightWall sh) = blocks sh"
  "angle (kickShapeRightWall sh) = angle sh"
  by (simp_all add: kickShapeLeftWall_def kickShapeRightWall_def Let_def)

text \<open>
  C10. In a state with \<open>gameEnd\<close> set, \<open>MoveAction\<close> (for any movement) and
  \<open>RotateAction\<close> return no state other than their input, and they do return it
  whenever the current shape, if there is one, can be rendered (it is fixed or its
  matrix is well shaped, as every catalog matrix is).
\<close>

theorem gameEnd_freezes_move_and_rotate:
  "gameEnd s \<Longrightarrow>
     (\<forall>s'. MoveAction mv s = Inr s' \<longrightarrow> s' = s)
     \<and> (\<forall>s'. RotateAction s = Inr s' \<longrightarrow> s' = s)
     \<and> ((\<forall>cur. currentShape s = Some cur \<longrightarrow>
            shape_fix cur \<or> wellShaped (matrix (shape_type cur)))
          \<longrightarrow> MoveAction mv s = Inr s \<and> RotateAction s = Inr s)"
proof (cases "currentShape s")
  case None
  then show ?thesis by (simp add: MoveAction_def RotateAction_def)
next
  case (Some cur)
  assume ge: "gameEnd s"
  show ?thesis
  proof (intro conjI allI impI)
    fix s' assume "MoveAction mv s = Inr s'"
    with Some ge show "s' = s"
      by (auto simp: MoveAction_def Let_def dest: updateStateWithNewShape_gameEnd)
  next
    fix s' assume "RotateAction s = Inr s'"
    with Some ge show "s' = s"
      by (auto simp: RotateAction_def Let_def dest: updateStateWithNewShape_gameEnd)
  next
    assume "\<forall>cur. currentShape s = Some cur \<longrightarrow>
            shape_fix cur \<or> wellShaped (matrix (shape_type cur))"
    with Some have ws: "shape_fix cur \<or> wellShaped (matrix (shape_type cur))" by simp
    then show "MoveAction mv s = Inr s"
      using Some ge by (simp add: MoveAction_def Let_def updateStateWithNewShape_gameEnd_total)
  next
    assume "\<forall>cur. currentShape s = Some cur \<longrightarrow>
            shape_fix cur \<or> wellShaped (matrix (shape_type cur))"
    with Some have ws: "shape_fix cur \<or> wellShaped (matrix (shape_type cur))" by simp
    then show "RotateAction s = Inr s"
      using Some ge
      by (simp add: RotateAction_def Let_def updateStateWithNewShape_gameEnd_total
          rotateKickShape_eq kick_keeps)
  qed
qed

theorem gameEnd_freezes_move_and_rotate_witness:
  "gameEnd (canvasState\<lparr>gameEnd := True\<rparr>)
   \<and> currentShape (canvasState\<lparr>gameEnd := True\<rparr>) = Some fallingShape
   \<and> wellShaped (matrix (shape_type fallingShape))
   \<and> MoveAction \<lparr>deltaX = 0, deltaY = 20\<rparr> (canvasState\<lparr>gameEnd := True\<rparr>)
        = Inr (canvasState\<lparr>gameEnd := True\<rparr>)
   \<and> RotateAction (canvasState\<lparr>gameEnd := True\<rparr>) = Inr (canvasState\<lparr>gameEnd := True\<rparr>)"
proof -
  let ?s = "canvasState\<lparr>gameEnd := True\<rparr>"
  have ge: "gameEnd ?s" by simp
  have cur: "currentShape ?s = Some fallingShape" by (simp add: canvasState_def)
  have ws: "wellShaped (matrix (shape_type fallingShape))"
    by (simp add: fallingShape_def initialShape_eq wellShaped_def)
  from gameEnd_freezes_move_and_rotate [OF ge, of "\<lparr>deltaX = 0, deltaY = 20\<rparr>"] cur ws
  have "MoveAction \<lparr>deltaX = 0, deltaY = 20\<rparr> ?s = Inr ?s \<and> RotateAction ?s = Inr ?s"
    by simp
  with ge cur ws show ?thesis by simp
qed

section \<open>Wall kicks\<close>

lemma Min_insert_min:
  "finite S \<Longrightarrow> Min (insert (min m x) S) = Min (insert m (insert x S))"
  for m :: int
  by (cases "S = {}") (simp_all add: min.assoc)

lemma Max_insert_max:
  "finite S \<Longrightarrow> Max (insert (max m x) S) = Max (insert m (insert x S))"
  for m :: int
  by (cases "S = {}") (simp_all add: max.assoc)

lemma foldl_min_blocks:
  "foldl (\<lambda>smallestX b.
       case smallestX of None \<Rightarrow> Some (blk_x b) | Some m \<Rightarrow> Some (min m (blk_x b))) (Some m) bs
     = Some (Min (insert m (blk_x ` set bs)))"
  by (induction bs arbitrary: m) (simp_all add: Min_insert_min)

lemma foldl_max_blocks:
  "foldl (\<lambda>largestX b.
       case largestX of None \<Rightarrow> Some (blk_x b) | Some m \<Rightarrow> Some (max m (blk_x b))) (Some m) bs
     = Some (Max (insert m (blk_x ` set bs)))"
  by (induction bs arbitrary: m) (simp_all add: Max_insert_max)

lemma leftMostBlockX_eq:
  "leftMostBlockX bs = (if bs = [] then None else Some (Min (blk_x ` set bs)))"
  by (cases bs) (simp_all add: leftMostBlockX_def foldl_min_blocks)

lemma rightMostBlockX_eq:
  "rightMostBlockX bs = (if bs = [] then None else Some (Max (blk_x ` set bs)))"
  by (cases bs) (simp_all add: rightMostBlockX_def foldl_max_blocks)

lemma jsRem_nonneg: "0 \<le> a \<Longrightarrow> jsRem a b = a mod \<bar>b\<bar>"
  by (cases "a = 0") (simp_all add: jsRem_def)

text \<open>
  C6, as stated, fails: the kicks do not look at the blocks of the rotated shape. An
  upright I at \<open>x = 20\<close>, reached by two moves to the left, has its blocks at \<open>x = 60\<close>.
  Rotated, its leftmost block is at \<open>x = 20\<close>, within one block width of the left edge,
  but the shape is not translated to \<open>x = 0\<close>: it stays at \<open>x = 20\<close>.
\<close>

theorem rotate_left_kick_counterexample:
  "runActions INITIAL_STATE [GameCycle (1 / 2, - 1), GameCycle (1 / 2, - 1), leftKey, leftKey]
     = Inr (rotateState (standingI 20))
   \<and> reachable (rotateState (standingI 20))
   \<and> currentShape (rotateState (standingI 20)) = Some (standingI 20)
   \<and> renderBlocksFromShape (standingI 20) = Inr (blocks (standingI 20))
   \<and> RotateAction (rotateState (standingI 20)) = Inr (rotateState (lyingI 20))
   \<and> renderBlocksFromShape (lyingI 20) = Inr (blocks (lyingI 20))
   \<and> leftMostBlockX (blocks (lyingI 20)) = Some Block_WIDTH
   \<and> shape_x (lyingI 20) = 20
   \<and> angle (lyingI 20) = Some 90"
proof -
  have run: "runActions INITIAL_STATE
      [GameCycle (1 / 2, - 1), GameCycle (1 / 2, - 1), leftKey, leftKey]
     = Inr (rotateState (standingI 20))"
    by code_simp
  from reachable.initial run have re: "reachable (rotateState (standingI 20))"
    by (rule reachable_runActions)
  have cur: "currentShape (rotateState (standingI 20)) = Some (standingI 20)"
    by (simp add: rotateState_def)
  have r1: "renderBlocksFromShape (standingI 20) = Inr (blocks (standingI 20))"
    by code_simp
  have rot: "RotateAction (rotateState (standingI 20)) = Inr (rotateState (lyingI 20))"
    by code_simp
  have r2: "renderBlocksFromShape (lyingI 20) = Inr (blocks (lyingI 20))"
    by code_simp
  have l: "leftMostBlockX (blocks (lyingI 20)) = Some Block_WIDTH"
    by code_simp
  have x: "shape_x (lyingI 20) = 20" "angle (lyingI 20) = Some 90"
    by (simp_all add: lyingI_def standingI_def)
  from run re cur r1 rot r2 l x show ?thesis by blast
qed


text \<open>
  C6, amended. \<open>RotateAction\<close> replaces the angle by \<open>(angle + 90) % 360\<close> (which is
  \<open>(angle + 90) mod 360\<close> for the angles the engine uses) and passes the shape through
  the two wall kicks, the left one first and the right one on its result, before the
  update rasterizes it. Both kicks read the blocks stored in the shape, which are those
  of the current shape from before the rotation, and neither changes them: the left
  kick moves the shape to \<open>x = 0\<close> when the leftmost stored block starts within one
  block width of the left edge; the right kick moves it to \<open>x = CANVAS_WIDTH - width\<close>,
  so that the right edge of its box touches the canvas width, when the rightmost stored
  block ends within one block width of the right edge. So the rotated shape is placed
  at \<open>CANVAS_WIDTH - width\<close> if the right test holds, else at 0 if the left test
  holds, else where it was; a shape without stored blocks is not kicked.
\<close>

theorem rotate_wall_kicks:
  "kickShapeLeftWall sh =
     (if blocks sh \<noteq> [] \<and> Min (blk_x ` set (blocks sh)) \<le> Block_WIDTH
      then sh\<lparr>shape_x := 0\<rparr> else sh)
   \<and> kickShapeRightWall sh =
     (if blocks sh \<noteq> [] \<and> CANVAS_WIDTH - Block_WIDTH \<le> Max (blk_x ` set (blocks sh)) + Block_WIDTH
      then sh\<lparr>shape_x := CANVAS_WIDTH - shape_width sh\<rparr> else sh)
   \<and> rotateKickShape sh = kickShapeRightWall (kickShapeLeftWall sh)
   \<and> blocks (kickShapeLeftWall sh) = blocks sh
   \<and> (currentShape s = Some cur \<longrightarrow>
        RotateAction s =
          updateStateWithNewShape s
            (rotateKickShape (cur\<lparr>angle := map_option (\<lambda>a. jsRem (a + 90) 360) (angle cur)\<rparr>))
        \<and> rotateKickShape (cur\<lparr>angle := map_option (\<lambda>a. jsRem (a + 90) 360) (angle cur)\<rparr>) =
            cur\<lparr>angle := map_option (\<lambda>a. jsRem (a + 90) 360) (angle cur),
                shape_x :=
                  if blocks cur \<noteq> []
                     \<and> CANVAS_WIDTH - Block_WIDTH \<le> Max (blk_x ` set (blocks cur)) + Block_WIDTH
                  then CANVAS_WIDTH - shape_width cur
                  else if blocks cur \<noteq> [] \<and> Min (blk_x ` set (blocks cur)) \<le> Block_WIDTH
                  then 0
                  else shape_x cur\<rparr>)
   \<and> (0 \<le> a + 90 \<longrightarrow> jsRem (a + 90) 360 = (a + 90) mod 360)"
  by (auto simp: kickShapeLeftWall_def kickShapeRightWall_def leftMostBlockX_eq
      rightMostBlockX_eq rotateKickShape_eq RotateAction_def Let_def jsRem_nonneg)

theorem rotate_wall_kicks_witness:
  "currentShape (rotateState (standingI (- 40))) = Some (standingI (- 40))
   \<and> kickShapeLeftWall (standingI (- 40)) = (standingI (- 40))\<lparr>shape_x := 0\<rparr>
   \<and> kickShapeRightWall (standingI (- 40)) = standingI (- 40)
   \<and> RotateAction (rotateState (standingI (- 40))) = Inr (rotateState (lyingI 0))
   \<and> currentShape (rotateState (standingI 140)) = Some (standingI 140)
   \<and> kickShapeLeftWall (standingI 140) = standingI 140
   \<and> kickShapeRightWall (standingI 140) = (standingI 140)\<lparr>shape_x := 120\<rparr>
   \<and> RotateAction (rotateState (standingI 140)) = Inr (rotateState (lyingI 120))
   \<and> jsRem (0 + 90) 360 = 90"
proof -
  let ?l = "standingI (- 40)" and ?r = "standingI 140"
  have cl: "currentShape (rotateState ?l) = Some ?l" and cr: "currentShape (rotateState ?r) = Some ?r"
    by (simp_all add: rotateState_def)
  have a: "(0::int) \<le> 0 + 90" by simp
  have j: "jsRem 90 360 = 90" by (simp add: jsRem_def)
  have bl: "blocks ?l \<noteq> []" "Min (blk_x ` set (blocks ?l)) = 0" "Max (blk_x ` set (blocks ?l)) = 0"
    "angle ?l = Some 0" "shape_width ?l = 80"
    by (simp_all add: standingI_def)
  have br: "blocks ?r \<noteq> []" "Min (blk_x ` set (blocks ?r)) = 180" "Max (blk_x ` set (blocks ?r)) = 180"
    "angle ?r = Some 0" "shape_width ?r = 80"
    by (simp_all add: standingI_def)
  have ul: "updateStateWithNewShape (rotateState ?l) (?l\<lparr>angle := Some 90, shape_x := 0\<rparr>)
      = Inr (rotateState (lyingI 0))"
    by code_simp
  have ur: "updateStateWithNewShape (rotateState ?r) (?r\<lparr>angle := Some 90, shape_x := 120\<rparr>)
      = Inr (rotateState (lyingI 120))"
    by code_simp
  from rotate_wall_kicks [of ?l "rotateState ?l" ?l 0] cl a bl ul
  have 1: "kickShapeLeftWall ?l = ?l\<lparr>shape_x := 0\<rparr>"
    and 2: "kickShapeRightWall ?l = ?l"
    and 3: "RotateAction (rotateState ?l) = Inr (rotateState (lyingI 0))"
    and 4: "jsRem (0 + 90) 360 = 90"
    by (simp_all add: const_defs j)
  from rotate_wall_kicks [of ?r "rotateState ?r" ?r 0] cr a br ur
  have 5: "kickShapeLeftWall ?r = ?r"
    and 6: "kickShapeRightWall ?r = ?r\<lparr>shape_x := 120\<rparr>"
    and 7: "RotateAction (rotateState ?r) = Inr (rotateState (lyingI 120))"
    by (simp_all add: const_defs j)
  from cl cr 1 2 3 4 5 6 7 show ?thesis by blast
qed

section \<open>The blocks of the shapes of a reachable state\<close>
















lemma updateStateWithNewShape_cases:
  assumes "updateStateWithNewShape s c = Inr s'"
  shows "s' = s
    \<or> (\<exists>cur. currentShape s = Some cur \<and> shape_fix cur
          \<and> s' = s\<lparr>currentShape := None, fixedShapes := fixedShapes s @ [cur]\<rparr>)
    \<or> (\<exists>bs u. renderBlocksFromShape c = Inr bs
          \<and> u = c\<lparr>blocks := bs, shape_fix := isFix bs (allBlocks s)\<rparr>
          \<and> (s' = s\<lparr>currentShape := None, fixedShapes := fixedShapes s @ [u]\<rparr>
              \<or> \<not> shape_fix u \<and> s' = s\<lparr>currentShape := Some u\<rparr>))"
proof -
  from assms have "\<exists>r. updateShape s c = Inr r \<and>
     (if gameEnd s then Inr s
       else case r of
              None \<Rightarrow> Inr s
            | Some u \<Rightarrow>
               if shape_fix u
               then Inr (s\<lparr>currentShape := None, fixedShapes := fixedShapes s @ [u]\<rparr>)
               else Inr (s\<lparr>currentShape := Some u\<rparr>)) = (Inr s' :: error + State)"
    unfolding updateStateWithNewShape_def bindE_eq_Inr .
  then obtain r where r: "updateShape s c = Inr r"
    and s': "(if gameEnd s then Inr s
       else case r of
              None \<Rightarrow> Inr s
            | Some u \<Rightarrow>
               if shape_fix u
               then Inr (s\<lparr>currentShape := None, fixedShapes := fixedShapes s @ [u]\<rparr>)
               else Inr (s\<lparr>currentShape := Some u\<rparr>)) = (Inr s' :: error + State)"
    by blast
  from updateShape_Inr [OF r] consider (old) "r = currentShape s"
    | (new) bs where "renderBlocksFromShape c = Inr bs"
        "r = Some (c\<lparr>blocks := bs, shape_fix := isFix bs (allBlocks s)\<rparr>)"
    by blast
  then show ?thesis
  proof cases
    case old
    with s' show ?thesis
      by (cases "currentShape s") (auto split: if_splits)
  next
    case new
    with s' show ?thesis
      by (auto split: if_splits)
  qed
qed




















section \<open>The grid of the fixed blocks\<close>

lemma trunc_of_int [simp]: "trunc (of_int k) = k"
  by (simp add: trunc_def)

lemma trunc_of_int_add1 [simp]: "trunc (of_int k + 1) = k + 1"
  using trunc_of_int [of "k + 1"] by (simp del: trunc_of_int)

lemma trunc_of_nat [simp]: "trunc (of_nat n) = int n"
  using trunc_of_int [of "int n"] by (simp del: trunc_of_int)

lemma trunc_of_nat_add1 [simp]: "trunc (of_nat n + 1) = int n + 1"
  using trunc_of_int_add1 [of "int n"] by (simp del: trunc_of_int_add1)

lemma replace_nth:
  "i < length xs \<Longrightarrow> replace xs v (of_nat i) = xs[i := v]"
  by (simp add: replace_def slice_def sliceFrom_def relIndex_def upd_conv_take_nth_drop
      nat_add_distrib)

lemma element_nth:
  "i < length xs \<Longrightarrow> element xs (of_nat i) = Some (xs ! i)"
  using floor_of_nat [of i, where ?'a = rat] by (simp add: element_def lookup_def)

lemma gridShape_mark:
  assumes "gridShape w h g"
  shows "gridShape w h (mark g cr)"
proof (cases "snd cr < length g")
  case True
  then have "length ((g ! snd cr)[fst cr := 1]) = w"
    using assms by (auto simp: gridShape_def)
  moreover have "set (g[snd cr := (g ! snd cr)[fst cr := 1]])
      \<subseteq> insert ((g ! snd cr)[fst cr := 1]) (set g)"
    by (rule set_update_subset_insert)
  ultimately show ?thesis
    using assms by (auto simp: gridShape_def mark_def)
next
  case False
  then show ?thesis using assms by (simp add: mark_def list_update_beyond)
qed

lemma gridShape_row: "gridShape w h g \<Longrightarrow> r < h \<Longrightarrow> length (g ! r) = w"
  by (auto simp: gridShape_def)

lemma updateGrid_step:
  assumes "gridShape w h g" and "c < w" and "r < h"
    and "pos_x p = of_nat c" and "pos_y p = of_nat r"
  shows "(case element g (pos_y p) of
            None \<Rightarrow> Inl TypeError
          | Some rowToUpdate \<Rightarrow>
              (let updatedRow = replace rowToUpdate 1 (pos_x p);
                   updatedGrid = replace g updatedRow (pos_y p)
               in Inr updatedGrid)) = (Inr (mark g (c, r)) :: error + NumbersMatrix)"
proof -
  from assms have r: "r < length g" and c: "c < length (g ! r)"
    by (auto simp: gridShape_def)
  then show ?thesis
    unfolding assms(4,5) by (simp add: element_nth replace_nth mark_def Let_def)
qed

lemma updateGrid_marks:
  assumes "gridShape w h g" and "\<forall>cr \<in> set crs. fst cr < w \<and> snd cr < h"
  shows "updateGrid g (map (\<lambda>cr. \<lparr>pos_x = of_nat (fst cr), pos_y = of_nat (snd cr)\<rparr>) crs)
           = Inr (foldl mark g crs)"
  using assms
proof (induction crs arbitrary: g)
  case Nil
  then show ?case by (simp add: updateGrid_def)
next
  case (Cons cr crs)
  let ?pos = "\<lambda>cr :: nat \<times> nat. \<lparr>pos_x = of_nat (fst cr), pos_y = of_nat (snd cr)\<rparr>"
  from Cons.prems have cr: "fst cr < w" "snd cr < h" by simp_all
  have sh: "gridShape w h (mark g cr)" using Cons.prems(1) by (rule gridShape_mark)
  from Cons.prems have rest: "\<forall>cr \<in> set crs. fst cr < w \<and> snd cr < h" by simp
  have step: "(case element g (pos_y (?pos cr)) of
            None \<Rightarrow> Inl TypeError
          | Some rowToUpdate \<Rightarrow>
              (let updatedRow = replace rowToUpdate 1 (pos_x (?pos cr));
                   updatedGrid = replace g updatedRow (pos_y (?pos cr))
               in Inr updatedGrid)) = (Inr (mark g cr) :: error + NumbersMatrix)"
    using updateGrid_step [OF Cons.prems(1) cr, of "?pos cr"] by simp
  have "updateGrid g (map ?pos (cr # crs)) = updateGrid (mark g cr) (map ?pos crs)"
    unfolding updateGrid_def list.map foldl_Cons bindE_Inr step ..
  also have "\<dots> = Inr (foldl mark (mark g cr) crs)"
    by (rule Cons.IH [OF sh rest])
  finally show ?case by simp
qed

lemma gridShape_foldl_mark: "gridShape w h g \<Longrightarrow> gridShape w h (foldl mark g crs)"
  by (induction crs arbitrary: g) (simp_all add: gridShape_mark)

lemma mark_cell:
  assumes "gridShape w h g" and "r < h" and "c < w"
  shows "mark g cr ! r ! c = (if cr = (c, r) then 1 else g ! r ! c)"
proof -
  from assms have r: "r < length g" and c: "c < length (g ! r)" by (auto simp: gridShape_def)
  obtain a b where cr: "cr = (a, b)" by (cases cr)
  show ?thesis
  proof (cases "b = r")
    case True
    with r c cr show ?thesis by (simp add: mark_def nth_list_update)
  next
    case False
    with cr show ?thesis by (simp add: mark_def)
  qed
qed

lemma foldl_mark_cell:
  assumes "gridShape w h g" and "r < h" and "c < w"
  shows "foldl mark g crs ! r ! c = (if (c, r) \<in> set crs then 1 else g ! r ! c)"
  using assms(1)
proof (induction crs arbitrary: g)
  case Nil
  then show ?case by simp
next
  case (Cons cr crs)
  have "foldl mark (mark g cr) crs ! r ! c
      = (if (c, r) \<in> set crs then 1 else mark g cr ! r ! c)"
    by (rule Cons.IH [OF gridShape_mark [OF Cons.prems]])
  then show ?case
    using mark_cell [OF Cons.prems assms(2,3), of cr] by auto
qed

lemma foldl_collect:
  "foldl (\<lambda>acc x. if P x then acc @ [f x] else acc) acc xs = acc @ map f (filter P xs)"
  by (induction xs arbitrary: acc) simp_all

lemma filter_enumerate:
  "map fst (filter (\<lambda>(i, x). P x) (enumerate n xs))
     = filter (\<lambda>i. P (xs ! (i - n))) [n..<n + length xs]"
proof (induction xs arbitrary: n)
  case Nil
  then show ?case by simp
next
  case (Cons x xs)
  have tail: "filter (\<lambda>i. P ((x # xs) ! (i - n))) [Suc n..<Suc n + length xs]
      = filter (\<lambda>i. P (xs ! (i - Suc n))) [Suc n..<Suc n + length xs]"
  proof (rule filter_cong [OF refl])
    fix i assume "i \<in> set [Suc n..<Suc n + length xs]"
    then have "i - n = Suc (i - Suc n)" by auto
    then show "P ((x # xs) ! (i - n)) = P (xs ! (i - Suc n))" by simp
  qed
  have "[n..<n + length (x # xs)] = n # [Suc n..<Suc n + length xs]"
    by (simp add: upt_rec)
  then show ?case
    using Cons.IH [of "Suc n"] tail by simp
qed

lemma findFullRowsOfGrid_eq:
  "findFullRowsOfGrid g
     = map int (filter (\<lambda>i. list_all (\<lambda>cell. cell = 1) (g ! i)) [0..<length g])"
proof -
  have "findFullRowsOfGrid g
      = map (\<lambda>p. int (fst p)) (filter (\<lambda>p. list_all (\<lambda>cell. cell = 1) (snd p)) (indexed g))"
    unfolding findFullRowsOfGrid_def Let_def case_prod_unfold
    using foldl_collect [of "\<lambda>p. list_all (\<lambda>cell. cell = 1) (snd p)" "\<lambda>p. int (fst p)" "[]" "indexed g"]
    by simp
  also have "\<dots> = map int (map fst (filter (\<lambda>(i, x). list_all (\<lambda>cell. cell = 1) x) (enumerate 0 g)))"
    by (simp add: indexed_def case_prod_unfold)
  also have "\<dots> = map int (filter (\<lambda>i. list_all (\<lambda>cell. cell = 1) (g ! i)) [0..<length g])"
    by (simp add: filter_enumerate)
  finally show ?thesis .
qed

lemma onGrid_cell:
  assumes "onGrid b"
  shows "fst (cellOf b) < 10" and "snd (cellOf b) < 20"
    and "blk_x b = int (fst (cellOf b)) * 20" and "blk_y b = int (snd (cellOf b)) * 20"
  using assms by (auto simp: onGrid_def cellOf_def const_defs)

lemma onGrid_position:
  assumes "onGrid b"
  shows "\<lparr>pos_x = of_int (blk_x b) / of_int Block_WIDTH,
          pos_y = of_int (blk_y b) / of_int Block_HEIGHT\<rparr>
       = \<lparr>pos_x = of_nat (fst (cellOf b)), pos_y = of_nat (snd (cellOf b))\<rparr>"
proof -
  have "(of_int (blk_x b) :: rat) = of_int (int (fst (cellOf b)) * 20)"
    using onGrid_cell(3) [OF assms] by simp
  then have x: "(of_int (blk_x b) :: rat) / of_int Block_WIDTH = of_nat (fst (cellOf b))"
    by (simp add: Block_WIDTH_eq)
  have "(of_int (blk_y b) :: rat) = of_int (int (snd (cellOf b)) * 20)"
    using onGrid_cell(4) [OF assms] by simp
  then have y: "(of_int (blk_y b) :: rat) / of_int Block_HEIGHT = of_nat (snd (cellOf b))"
    by (simp add: Block_HEIGHT_eq)
  from x y show ?thesis by simp
qed

lemma cell_in_cells:
  assumes "\<forall>b \<in> set bs. onGrid b"
  shows "(c, r) \<in> set (map cellOf bs)
     \<longleftrightarrow> (\<exists>b \<in> set bs. blk_x b = int c * Block_WIDTH \<and> blk_y b = int r * Block_HEIGHT)"
proof
  assume "(c, r) \<in> set (map cellOf bs)"
  then obtain b where b: "b \<in> set bs" "cellOf b = (c, r)" by auto
  with assms have "onGrid b" by simp
  from onGrid_cell(3,4) [OF this] b show
    "\<exists>b \<in> set bs. blk_x b = int c * Block_WIDTH \<and> blk_y b = int r * Block_HEIGHT"
    by (auto simp: Block_WIDTH_eq Block_HEIGHT_eq)
next
  assume "\<exists>b \<in> set bs. blk_x b = int c * Block_WIDTH \<and> blk_y b = int r * Block_HEIGHT"
  then obtain b where b: "b \<in> set bs" "blk_x b = int c * Block_WIDTH"
    "blk_y b = int r * Block_HEIGHT" by blast
  then have "cellOf b = (c, r)" by (simp add: cellOf_def Block_WIDTH_eq Block_HEIGHT_eq)
  with b(1) show "(c, r) \<in> set (map cellOf bs)" by force
qed

lemma gridShape_empty: "gridShape 10 20 emptyGrid"
  by (simp add: gridShape_def emptyGrid_def)

lemma constructGrid_state:
  assumes "\<forall>b \<in> set (allBlocks s). onGrid b"
  shows "constructGrid GRID_WIDTH GRID_HEIGHT (Some (getGridPositionsFromState s))
       = Inr (foldl mark emptyGrid (map cellOf (allBlocks s)))"
proof -
  have pos: "getGridPositionsFromState s
      = map (\<lambda>cr. \<lparr>pos_x = of_nat (fst cr), pos_y = of_nat (snd cr)\<rparr>) (map cellOf (allBlocks s))"
    unfolding getGridPositionsFromState_def allBlocks_def [symmetric] map_map
    by (rule map_cong [OF refl]) (simp add: onGrid_position assms)
  have cells: "\<forall>cr \<in> set (map cellOf (allBlocks s)). fst cr < 10 \<and> snd cr < 20"
    using assms by (auto dest: onGrid_cell(1,2))
  show ?thesis
    unfolding pos constructGrid_def
    using updateGrid_marks [OF gridShape_empty cells]
    by (simp add: emptyGrid_def const_defs)
qed

lemma full_row_of_marks:
  assumes "i < 20"
  shows "list_all (\<lambda>cell. cell = 1) (foldl mark emptyGrid crs ! i)
     \<longleftrightarrow> (\<forall>c < 10. (c, i) \<in> set crs)"
proof -
  have sh: "gridShape 10 20 (foldl mark emptyGrid crs)"
    by (rule gridShape_foldl_mark [OF gridShape_empty])
  have len: "length (foldl mark emptyGrid crs ! i) = 10"
    by (rule gridShape_row [OF sh assms])
  have cell: "foldl mark emptyGrid crs ! i ! c = (if (c, i) \<in> set crs then 1 else 0)"
    if "c < 10" for c
    using foldl_mark_cell [OF gridShape_empty assms that, of crs] assms that
    by (simp add: emptyGrid_def)
  show ?thesis
    unfolding list_all_length len using cell by auto
qed

lemma rowOccupied_iff:
  "rowOccupied bs y
     \<longleftrightarrow> (\<forall>c < 10. \<exists>b \<in> set bs. blk_x b = int c * Block_WIDTH \<and> blk_y b = y)"
  by (auto simp: rowOccupied_def list_all_iff list_ex_iff const_defs)

lemma fullRowsYCoordinates_eq:
  assumes "\<forall>b \<in> set (allBlocks s). onGrid b"
  shows "fullRowsYCoordinates s = Inr (occupiedRows s)"
proof -
  let ?crs = "map cellOf (allBlocks s)"
  have len: "length (foldl mark emptyGrid ?crs) = 20"
    using gridShape_foldl_mark [OF gridShape_empty, of ?crs] by (simp add: gridShape_def)
  have rows: "filter (\<lambda>i. list_all (\<lambda>cell. cell = 1) (foldl mark emptyGrid ?crs ! i)) [0..<20]
      = filter (\<lambda>i. rowOccupied (allBlocks s) (int i * Block_HEIGHT)) [0..<20]"
  proof (rule filter_cong [OF refl])
    fix i assume "i \<in> set [0..<20]"
    then have i: "i < 20" by simp
    show "list_all (\<lambda>cell. cell = 1) (foldl mark emptyGrid ?crs ! i)
        = rowOccupied (allBlocks s) (int i * Block_HEIGHT)"
      unfolding full_row_of_marks [OF i] rowOccupied_iff
      using cell_in_cells [OF assms] by simp
  qed
  have "fullRowsYCoordinates s
      = Inr (map (\<lambda>index. index * Block_HEIGHT)
          (map int (filter (\<lambda>i. rowOccupied (allBlocks s) (int i * Block_HEIGHT)) [0..<20])))"
    unfolding fullRowsYCoordinates_def constructGrid_state [OF assms] bindE_Inr
      findFullRowsOfGrid_eq len rows ..
  also have "\<dots> = Inr (occupiedRows s)"
    by (simp add: occupiedRows_def filter_map comp_def GRID_HEIGHT_def)
  finally show ?thesis .
qed

section \<open>Clearing rows\<close>

lemma adjustBlocks_eq:
  "adjustBlocks fullRows bs =
     map (\<lambda>b. b\<lparr>blk_y := blk_y b
                  + blk_height b * int (length (filter (\<lambda>y. blk_y b < y) fullRows))\<rparr>)
       (filter (\<lambda>b. blk_y b \<notin> set fullRows) bs)"
  by (simp add: adjustBlocks_def Let_def)

lemma adjustBlocks_single:
  "adjustBlocks [yc] bs =
     map (\<lambda>b. if blk_y b < yc then b\<lparr>blk_y := blk_y b + blk_height b\<rparr> else b)
       (filter (\<lambda>b. blk_y b \<noteq> yc) bs)"
  unfolding adjustBlocks_eq by (rule map_cong) auto

lemma length_adjusted:
  "length (concat (map (\<lambda>sh. adjustBlocks fullRows (blocks sh)) shs))
     = length (filter (\<lambda>b. blk_y b \<notin> set fullRows) (concat (map blocks shs)))"
  by (induction shs) (simp_all add: adjustBlocks_eq)

lemma occupied_row_length:
  assumes grid: "\<forall>b \<in> set bs. onGrid b"
    and occ: "rowOccupied bs yc"
    and dist: "distinct (map (\<lambda>b. (blk_x b, blk_y b)) bs)"
  shows "length (filter (\<lambda>b. blk_y b = yc) bs) = 10"
proof -
  let ?R = "filter (\<lambda>b. blk_y b = yc) bs"
  have "distinct (map (\<lambda>b. (blk_x b, blk_y b)) ?R)"
    using dist by (rule distinct_map_filter)
  moreover have "map (\<lambda>b. (blk_x b, blk_y b)) ?R = map (\<lambda>x. (x, yc)) (map blk_x ?R)"
    by (simp add: comp_def cong: map_cong)
  ultimately have "distinct (map (\<lambda>x. (x, yc)) (map blk_x ?R))" by (simp only:)
  then have d: "distinct (map blk_x ?R)"
    by (rule distinct_map [THEN iffD1, THEN conjunct1])
  have "set (map blk_x ?R) = (\<lambda>c. int c * 20) ` {0..<10}"
  proof (intro equalityI subsetI)
    fix x assume "x \<in> set (map blk_x ?R)"
    then obtain b where b: "b \<in> set bs" "x = blk_x b" by auto
    with grid have "onGrid b" by simp
    from onGrid_cell(1,3) [OF this] b(2) show "x \<in> (\<lambda>c. int c * 20) ` {0..<10}" by auto
  next
    fix x assume "x \<in> (\<lambda>c. int c * 20) ` {0..<10}"
    then obtain c where c: "c < 10" "x = int c * 20" by auto
    with occ obtain b where "b \<in> set bs" "blk_x b = int c * Block_WIDTH" "blk_y b = yc"
      unfolding rowOccupied_iff by blast
    with c show "x \<in> set (map blk_x ?R)" by (force simp: Block_WIDTH_eq)
  qed
  moreover have "card ((\<lambda>c. int c * 20) ` {0..<10::nat}) = 10"
    by (subst card_image) (auto simp: inj_on_def)
  ultimately have "card (set (map blk_x ?R)) = 10" by simp
  with distinct_card [OF d] show ?thesis by simp
qed

text \<open>
  C2. Whenever \<open>ScoreAction\<close> finds the full rows of its grid, it returns the state in
  which the score has grown by the number of those rows times the level and in which
  each fixed shape has lost its blocks on those rows, each surviving block being moved
  down by its height (\<open>Block.HEIGHT\<close> for a rendered block) times the number of cleared
  rows below it, that is, with a greater \<open>y\<close>; nothing else changes. When every fixed
  block is on the grid, the rows found are exactly the occupied rows. If moreover
  exactly one row is occupied and no two fixed blocks share a position, then exactly
  \<open>GRID_WIDTH\<close> blocks are removed, the score grows by exactly the level, every
  surviving block above the cleared row moves down by one block height and every block
  below it stays in place.
\<close>

theorem score_clears_rows:
  "(\<forall>fullRows. fullRowsYCoordinates s = Inr fullRows \<longrightarrow>
      ScoreAction s =
        Inr (s\<lparr>stats := (stats s)\<lparr>score := score (stats s)
                   + int (length fullRows) * level (stats s)\<rparr>,
               fixedShapes := map (\<lambda>sh. sh\<lparr>blocks :=
                   map (\<lambda>b. b\<lparr>blk_y := blk_y b + blk_height b
                                * int (length (filter (\<lambda>y. blk_y b < y) fullRows))\<rparr>)
                     (filter (\<lambda>b. blk_y b \<notin> set fullRows) (blocks sh))\<rparr>)
                 (fixedShapes s)\<rparr>))
   \<and> ((\<forall>b \<in> set (allBlocks s). onGrid b) \<longrightarrow>
        fullRowsYCoordinates s = Inr (occupiedRows s)
        \<and> (occupiedRows s = [yc] \<and> distinct (map (\<lambda>b. (blk_x b, blk_y b)) (allBlocks s)) \<longrightarrow>
            (\<exists>s'. ScoreAction s = Inr s'
               \<and> int (length (allBlocks s')) = int (length (allBlocks s)) - GRID_WIDTH
               \<and> score (stats s') = score (stats s) + level (stats s)
               \<and> fixedShapes s' = map (\<lambda>sh. sh\<lparr>blocks :=
                     map (\<lambda>b. if blk_y b < yc then b\<lparr>blk_y := blk_y b + blk_height b\<rparr> else b)
                       (filter (\<lambda>b. blk_y b \<noteq> yc) (blocks sh))\<rparr>)
                   (fixedShapes s))))"
proof (intro conjI impI allI)
  fix fullRows assume "fullRowsYCoordinates s = Inr fullRows"
  then show "ScoreAction s =
        Inr (s\<lparr>stats := (stats s)\<lparr>score := score (stats s)
                   + int (length fullRows) * level (stats s)\<rparr>,
               fixedShapes := map (\<lambda>sh. sh\<lparr>blocks :=
                   map (\<lambda>b. b\<lparr>blk_y := blk_y b + blk_height b
                                * int (length (filter (\<lambda>y. blk_y b < y) fullRows))\<rparr>)
                     (filter (\<lambda>b. blk_y b \<notin> set fullRows) (blocks sh))\<rparr>)
                 (fixedShapes s)\<rparr>)"
    by (simp add: ScoreAction_def Let_def adjustBlocks_eq)
next
  assume grid: "\<forall>b \<in> set (allBlocks s). onGrid b"
  then show "fullRowsYCoordinates s = Inr (occupiedRows s)"
    by (rule fullRowsYCoordinates_eq)
next
  assume grid: "\<forall>b \<in> set (allBlocks s). onGrid b"
  assume a: "occupiedRows s = [yc] \<and> distinct (map (\<lambda>b. (blk_x b, blk_y b)) (allBlocks s))"
  let ?s' = "s\<lparr>stats := (stats s)\<lparr>score := score (stats s) + level (stats s)\<rparr>,
               fixedShapes := map (\<lambda>sh. sh\<lparr>blocks := adjustBlocks [yc] (blocks sh)\<rparr>)
                 (fixedShapes s)\<rparr>"
  have res: "ScoreAction s = Inr ?s'"
    using a by (simp add: ScoreAction_def fullRowsYCoordinates_eq [OF grid] Let_def)
  have "yc \<in> set (occupiedRows s)" using a by simp
  then have occ: "rowOccupied (allBlocks s) yc" by (simp add: occupiedRows_def)
  have ten: "length (filter (\<lambda>b. blk_y b = yc) (allBlocks s)) = 10"
    using grid occ a by (intro occupied_row_length) simp_all
  have "length (allBlocks ?s') = length (filter (\<lambda>b. blk_y b \<noteq> yc) (allBlocks s))"
    using length_adjusted [of "[yc]" "fixedShapes s"]
    by (simp add: allBlocks_def comp_def)
  moreover have "length (allBlocks s)
      = length (filter (\<lambda>b. blk_y b = yc) (allBlocks s))
        + length (filter (\<lambda>b. \<not> blk_y b = yc) (allBlocks s))"
    by (rule sum_length_filter_compl [symmetric])
  ultimately have cnt: "int (length (allBlocks ?s')) = int (length (allBlocks s)) - GRID_WIDTH"
    using ten by (simp add: GRID_WIDTH_def)
  show "\<exists>s'. ScoreAction s = Inr s'
           \<and> int (length (allBlocks s')) = int (length (allBlocks s)) - GRID_WIDTH
           \<and> score (stats s') = score (stats s) + level (stats s)
           \<and> fixedShapes s' = map (\<lambda>sh. sh\<lparr>blocks :=
                 map (\<lambda>b. if blk_y b < yc then b\<lparr>blk_y := blk_y b + blk_height b\<rparr> else b)
                   (filter (\<lambda>b. blk_y b \<noteq> yc) (blocks sh))\<rparr>)
               (fixedShapes s)"
    using res cnt by (intro exI [of _ ?s']) (simp add: adjustBlocks_single)
qed

theorem score_clears_rows_witness:
  "list_all onGrid (allBlocks clearState)
   \<and> fullRowsYCoordinates clearState = Inr [360]
   \<and> occupiedRows clearState = [360]
   \<and> distinct (map (\<lambda>b. (blk_x b, blk_y b)) (allBlocks clearState))
   \<and> ScoreAction clearState = Inr clearedState
   \<and> length (allBlocks clearState) = 13
   \<and> length (allBlocks clearedState) = 3
   \<and> score (stats clearState) = 5
   \<and> score (stats clearedState) = 7"
proof -
  have g: "list_all onGrid (allBlocks clearState)" by code_simp
  then have g': "\<forall>b \<in> set (allBlocks clearState). onGrid b" by (simp add: list_all_iff)
  have o: "occupiedRows clearState = [360]" by code_simp
  have d: "distinct (map (\<lambda>b. (blk_x b, blk_y b)) (allBlocks clearState))" by code_simp
  have n: "length (allBlocks clearState) = 13" by code_simp
  have sc: "score (stats clearState) = 5" "level (stats clearState) = 2"
    by (simp_all add: clearState_def)
  from score_clears_rows [of clearState 360] g' o
  have f: "fullRowsYCoordinates clearState = Inr [360]" by simp
  from score_clears_rows [of clearState 360] f
  have "ScoreAction clearState =
        Inr (clearState\<lparr>stats := (stats clearState)\<lparr>score := score (stats clearState)
                   + int (length [360 :: int]) * level (stats clearState)\<rparr>,
               fixedShapes := map (\<lambda>sh. sh\<lparr>blocks :=
                   map (\<lambda>b. b\<lparr>blk_y := blk_y b + blk_height b
                                * int (length (filter (\<lambda>y. blk_y b < y) [360]))\<rparr>)
                     (filter (\<lambda>b. blk_y b \<notin> set [360]) (blocks sh))\<rparr>)
                 (fixedShapes clearState)\<rparr>)"
    by blast
  moreover have "clearState\<lparr>stats := (stats clearState)\<lparr>score := score (stats clearState)
                   + int (length [360 :: int]) * level (stats clearState)\<rparr>,
               fixedShapes := map (\<lambda>sh. sh\<lparr>blocks :=
                   map (\<lambda>b. b\<lparr>blk_y := blk_y b + blk_height b
                                * int (length (filter (\<lambda>y. blk_y b < y) [360]))\<rparr>)
                     (filter (\<lambda>b. blk_y b \<notin> set [360]) (blocks sh))\<rparr>)
                 (fixedShapes clearState)\<rparr> = clearedState"
    by code_simp
  ultimately have e: "ScoreAction clearState = Inr clearedState" by simp
  from score_clears_rows [of clearState 360] g' o d obtain s' where
    s': "ScoreAction clearState = Inr s'"
    and cnt: "int (length (allBlocks s')) = int (length (allBlocks clearState)) - GRID_WIDTH"
    and sc': "score (stats s') = score (stats clearState) + level (stats clearState)"
    by blast
  from s' e have "s' = clearedState" by simp
  with cnt sc' n sc have "length (allBlocks clearedState) = 3"
    and "score (stats clearedState) = 7"
    by (simp_all add: GRID_WIDTH_def)
  with g f o d e n sc show ?thesis by simp
qed

section \<open>The obstacles of a reachable state\<close>

lemma updateStateWithNewShape_frame:
  "updateStateWithNewShape s c = Inr s' \<Longrightarrow> obstacles s' = obstacles s \<and> stats s' = stats s"
  by (drule updateStateWithNewShape_cases) auto

lemma obstacleInvariant_initial: "obstacleInvariant INITIAL_STATE"
  by (simp add: obstacleInvariant_def INITIAL_STATE_def)

lemma obstacleInvariant_AddShape:
  "obstacleInvariant s \<Longrightarrow> AddShapeAction p s = Inr s' \<Longrightarrow> obstacleInvariant s'"
  by (auto simp: AddShapeAction_def bindE_eq_Inr obstacleInvariant_def)

lemma obstacleInvariant_Move:
  "obstacleInvariant s \<Longrightarrow> MoveAction mv s = Inr s' \<Longrightarrow> obstacleInvariant s'"
  by (cases "currentShape s")
    (auto simp: MoveAction_def Let_def obstacleInvariant_def dest: updateStateWithNewShape_frame)

lemma obstacleInvariant_Rotate:
  "obstacleInvariant s \<Longrightarrow> RotateAction s = Inr s' \<Longrightarrow> obstacleInvariant s'"
  by (cases "currentShape s")
    (auto simp: RotateAction_def Let_def obstacleInvariant_def dest: updateStateWithNewShape_frame)

lemma obstacleInvariant_Score:
  "obstacleInvariant s \<Longrightarrow> ScoreAction s = Inr s' \<Longrightarrow> obstacleInvariant s'"
  by (auto simp: ScoreAction_def Let_def bindE_eq_Inr obstacleInvariant_def)

lemma obstacleInvariant_EndGame:
  "obstacleInvariant s \<Longrightarrow> EndGameAction s = Inr s' \<Longrightarrow> obstacleInvariant s'"
  by (cases "currentShape s") (auto simp: EndGameAction_def Let_def obstacleInvariant_def)

lemma obstacleInvariant_Restart:
  "obstacleInvariant s \<Longrightarrow> RestartGameAction s = Inr s' \<Longrightarrow> obstacleInvariant s'"
  by (auto simp: RestartGameAction_def obstacleInvariant_def INITIAL_STATE_def split: if_splits)

lemma obstacleInvariant_CheckLevelUp:
  "obstacleInvariant s \<Longrightarrow> CheckLevelUpAction s = Inr s' \<Longrightarrow> obstacleInvariant s'"
  by (auto simp: CheckLevelUpAction_def Let_def obstacleInvariant_def)

lemma obstacleInvariant_NextLevel:
  "obstacleInvariant s \<Longrightarrow> NextLevelAction p s = Inr s' \<Longrightarrow> obstacleInvariant s'"
  by (auto simp: NextLevelAction_def addObstacle_def Let_def bindE_eq_Inr obstacleInvariant_def
      split: if_splits)

lemma obstacleInvariant_Tick:
  assumes inv: "obstacleInvariant s" and t: "TickAction s = Inr s'"
  shows "obstacleInvariant s'"
proof (cases "gameEnd s \<or> levelUp s")
  case True
  with t inv show ?thesis by (simp add: TickAction_def)
next
  case False
  with t obtain s1 s2 s3 where
    "CheckLevelUpAction s = Inr s1"
    "MoveAction \<lparr>deltaX = 0, deltaY = dropRate s\<rparr> s1 = Inr s2"
    "ScoreAction s2 = Inr s3"
    "EndGameAction s3 = Inr s'"
    by (auto simp: TickAction_def bindE_eq_Inr)
  then show ?thesis
    using obstacleInvariant_EndGame obstacleInvariant_Score obstacleInvariant_Move
      obstacleInvariant_CheckLevelUp [OF inv]
    by blast
qed

lemma obstacleInvariant_GameCycle:
  "obstacleInvariant s \<Longrightarrow> GameCycleAction p s = Inr s' \<Longrightarrow> obstacleInvariant s'"
  by (auto simp: GameCycleAction_def split: if_splits
      intro: obstacleInvariant_NextLevel obstacleInvariant_Restart obstacleInvariant_AddShape)

lemma obstacleInvariant_step:
  "obstacleInvariant s \<Longrightarrow> reduceState s a = Inr s' \<Longrightarrow> obstacleInvariant s'"
  unfolding reduceState_def
  by (cases a)
    (auto intro: obstacleInvariant_AddShape obstacleInvariant_Move obstacleInvariant_Rotate
      obstacleInvariant_Score obstacleInvariant_EndGame obstacleInvariant_Restart
      obstacleInvariant_CheckLevelUp obstacleInvariant_NextLevel obstacleInvariant_Tick
      obstacleInvariant_GameCycle)

lemma obstacleInvariant_reachable: "reachable s \<Longrightarrow> obstacleInvariant s"
  by (induction rule: reachable.induct)
    (auto intro: obstacleInvariant_initial obstacleInvariant_step)

text \<open>
  C4, as stated, fails: at level 3 with no obstacle on the board, \<open>NextLevel\<close> leaves
  one obstacle in \<open>obstacles\<close> and in \<open>fixedShapes\<close>, not three.
\<close>

theorem NextLevel_one_obstacle_counterexample:
  "levelUp levelThreeState \<and> level (stats levelThreeState) = 3
   \<and> obstacles levelThreeState = []
   \<and> NextLevelAction (0, 0) levelThreeState = Inr levelFourState
   \<and> obstacles levelFourState = [levelThreeObstacle]
   \<and> fixedShapes levelFourState = [levelThreeObstacle]"
  by (simp add: levelThreeState_def levelFourState_def levelThreeObstacle_def
      NextLevelAction_def addObstacle_def renderBlocksFromShape_obstacle scaleToRange_def
      INITIAL_STATE_def const_defs floor_numeral_div Let_def)

text \<open>
  C4, amended. With \<open>levelUp\<close> set, \<open>NextLevel\<close> (and so \<open>GameCycle\<close>) returns
  \<open>INITIAL_STATE\<close> with the statistics of the old state except for the level, which
  grows by one, and with one new obstacle appended to the old obstacles; that list is
  both \<open>obstacles\<close> and \<open>fixedShapes\<close> of the new state. The new obstacle is a
  single block at the column and row that \<open>scaleToRange\<close> picks from the random pair.
  In a reachable state the obstacles number one less than the level, so that a level-up
  from level \<open>L\<close> in a run leaves \<open>L\<close> obstacles on the board, one of them new.
\<close>

theorem NextLevel_adds_one_obstacle:
  "(levelUp s \<longrightarrow>
     (let ox = scaleToRange (fst p) 0 (GRID_WIDTH - 1) * Block_WIDTH;
          oy = scaleToRange (snd p) (GRID_HEIGHT div 2) (GRID_HEIGHT - 1) * Block_HEIGHT;
          newObstacle = (createObstacle (- (int (length (obstacles s)) + 1)) ox oy)
            \<lparr>blocks := [\<lparr>blk_x = ox, blk_y = oy,
                         blk_width = Block_WIDTH, blk_height = Block_HEIGHT\<rparr>]\<rparr>
      in NextLevelAction p s =
           Inr (INITIAL_STATE\<lparr>stats := (stats s)\<lparr>level := level (stats s) + 1\<rparr>,
                               fixedShapes := obstacles s @ [newObstacle],
                               obstacles := obstacles s @ [newObstacle]\<rparr>)
         \<and> GameCycleAction p s = NextLevelAction p s))
   \<and> (reachable s \<longrightarrow> int (length (obstacles s)) = level (stats s) - 1)"
proof (intro conjI impI)
  assume "levelUp s"
  then show "let ox = scaleToRange (fst p) 0 (GRID_WIDTH - 1) * Block_WIDTH;
          oy = scaleToRange (snd p) (GRID_HEIGHT div 2) (GRID_HEIGHT - 1) * Block_HEIGHT;
          newObstacle = (createObstacle (- (int (length (obstacles s)) + 1)) ox oy)
            \<lparr>blocks := [\<lparr>blk_x = ox, blk_y = oy,
                         blk_width = Block_WIDTH, blk_height = Block_HEIGHT\<rparr>]\<rparr>
      in NextLevelAction p s =
           Inr (INITIAL_STATE\<lparr>stats := (stats s)\<lparr>level := level (stats s) + 1\<rparr>,
                               fixedShapes := obstacles s @ [newObstacle],
                               obstacles := obstacles s @ [newObstacle]\<rparr>)
         \<and> GameCycleAction p s = NextLevelAction p s"
    by (simp add: NextLevelAction_def GameCycleAction_def addObstacle_def Let_def
        renderBlocksFromShape_obstacle)
next
  assume "reachable s"
  then show "int (length (obstacles s)) = level (stats s) - 1"
    using obstacleInvariant_reachable [of s] by (simp add: obstacleInvariant_def)
qed

theorem NextLevel_adds_one_obstacle_witness:
  "levelUp levelThreeState
   \<and> NextLevelAction (0, 0) levelThreeState =
       Inr (INITIAL_STATE\<lparr>stats := \<lparr>level = 4, highScore = 30, score = 30\<rparr>,
                           fixedShapes := [levelThreeObstacle],
                           obstacles := [levelThreeObstacle]\<rparr>)
   \<and> reachable tickedState
   \<and> int (length (obstacles tickedState)) = level (stats tickedState) - 1"
proof -
  have lu: "levelUp levelThreeState" by (simp add: levelThreeState_def)
  have r1: "reduceState INITIAL_STATE (GameCycle (0, 0)) = Inr spawnedState"
    by code_simp
  have r2: "reduceState spawnedState Tick = Inr tickedState"
    by code_simp
  have re: "reachable tickedState"
    by (rule reachable.step [OF reachable.step [OF reachable.initial r1] r2])
  from NextLevel_adds_one_obstacle [of levelThreeState "(0, 0)"] lu
  have 1: "NextLevelAction (0, 0) levelThreeState =
       Inr (INITIAL_STATE\<lparr>stats := \<lparr>level = 4, highScore = 30, score = 30\<rparr>,
                           fixedShapes := [levelThreeObstacle],
                           obstacles := [levelThreeObstacle]\<rparr>)"
    by (simp add: levelThreeState_def levelThreeObstacle_def scaleToRange_def
        INITIAL_STATE_def const_defs Let_def floor_numeral_div)
  from NextLevel_adds_one_obstacle [of tickedState "(0, 0)"] re
  have 2: "int (length (obstacles tickedState)) = level (stats tickedState) - 1"
    by simp
  from lu 1 re 2 show ?thesis by simp
qed

section \<open>The values of the random number streams\<close>

text \<open>
  \<open>roundDouble\<close> is the identity below \<open>2^53\<close>; from \<open>2^53\<close> on its values are even and
  at least \<open>2^53\<close>.
\<close>

lemma binaryExponent_small: "a < 2 ^ 53 \<Longrightarrow> binaryExponent a = 0"
  by (simp add: binaryExponent.simps)

lemma binaryExponent_large: "2 ^ 53 \<le> a \<Longrightarrow> binaryExponent a = Suc (binaryExponent (a div 2))"
  by (subst binaryExponent.simps) simp

lemma significand_lower:
  "2 ^ 52 \<le> a \<Longrightarrow> 2 ^ 52 \<le> a div 2 ^ binaryExponent a"
proof (induction a rule: binaryExponent.induct)
  case (1 a)
  show ?case
  proof (cases "a < 2 ^ 53")
    case True
    with "1.prems" show ?thesis by (simp add: binaryExponent_small)
  next
    case False
    then have big: "2 ^ 53 \<le> a" by simp
    then have "2 ^ 52 \<le> a div 2" by simp
    from "1.IH" [OF False this]
    have "2 ^ 52 \<le> (a div 2) div 2 ^ binaryExponent (a div 2)" .
    also have "(a div 2) div 2 ^ binaryExponent (a div 2) = a div 2 ^ binaryExponent a"
      by (simp add: binaryExponent_large [OF big] zdiv_zmult2_eq)
    finally show ?thesis .
  qed
qed

lemma roundDouble_exact: "\<bar>n\<bar> < 2 ^ 53 \<Longrightarrow> roundDouble n = n"
  by (simp add: roundDouble_def binaryExponent_small Let_def mult_sgn_abs)

lemma roundDouble_even:
  assumes "2 ^ 53 \<le> n"
  shows "even (roundDouble n)"
proof -
  have n: "\<bar>n\<bar> = n" using assms by simp
  have "even ((2::int) ^ binaryExponent n)"
    unfolding binaryExponent_large [OF assms] by simp
  then show ?thesis
    unfolding roundDouble_def Let_def n by (simp only: even_mult_iff simp_thms)
qed

lemma roundDouble_large:
  assumes "2 ^ 53 \<le> n"
  shows "2 ^ 53 \<le> roundDouble n"
proof -
  let ?q = "(2::int) ^ binaryExponent n"
  let ?k = "n div ?q"
  have n: "\<bar>n\<bar> = n" "sgn n = 1" using assms by simp_all
  have k: "2 ^ 52 \<le> ?k" using assms by (intro significand_lower) simp
  have q: "2 \<le> ?q" by (simp add: binaryExponent_large [OF assms])
  have "(2::int) ^ 53 = 2 ^ 52 * 2" by simp
  also have "\<dots> \<le> ?k * ?q" using k q by (intro mult_mono) simp_all
  finally have base: "2 ^ 53 \<le> ?k * ?q" .
  have "?k * ?q \<le> (?k + 1) * ?q" by (simp add: distrib_right)
  with base have up: "2 ^ 53 \<le> (?k + 1) * ?q" by (rule order_trans)
  show ?thesis
    unfolding roundDouble_def Let_def n using base up by (simp del: power_numeral)
qed

lemma roundDouble_nonneg:
  assumes "0 \<le> n"
  shows "0 \<le> roundDouble n"
proof -
  let ?q = "(2::int) ^ binaryExponent \<bar>n\<bar>"
  have k: "0 \<le> \<bar>n\<bar> div ?q" by (simp add: pos_imp_zdiv_nonneg_iff)
  then have "0 \<le> (\<bar>n\<bar> div ?q) * ?q" and "0 \<le> (\<bar>n\<bar> div ?q + 1) * ?q"
    by simp_all
  moreover have "sgn n = 0 \<or> sgn n = 1" using assms by (auto simp: sgn_if)
  ultimately show ?thesis
    unfolding roundDouble_def Let_def by (auto simp del: power_numeral)
qed

lemma no_seed_below:
  assumes "0 \<le> seed" and "RNG_a * seed < 2 ^ 53"
  shows "(RNG_a * seed + RNG_c) mod RNG_m \<noteq> RNG_m - 1"
proof
  assume h: "(RNG_a * seed + RNG_c) mod RNG_m = RNG_m - 1"
  have small: "seed < 8162280"
    using assms unfolding RNG_a_def by simp
  have inv: "1857678181 * (RNG_a * seed + RNG_c)
      = seed + 22933037144445 + RNG_m * (954594553 * seed)"
    unfolding RNG_a_def RNG_c_def RNG_m_def by simp
  have "(1857678181 * ((RNG_a * seed + RNG_c) mod RNG_m)) mod RNG_m
      = (1857678181 * (RNG_a * seed + RNG_c)) mod RNG_m"
    by (rule mod_mult_right_eq)
  also have "\<dots> = (seed + 22933037144445) mod RNG_m"
    unfolding inv by simp
  finally have "(seed + 22933037144445) mod RNG_m = (1857678181 * (RNG_m - 1)) mod RNG_m"
    unfolding h by simp
  then have e: "(seed + 22933037144445) mod 2147483648 = 289805467"
    unfolding RNG_m_def by simp
  have "seed mod 2147483648 = (seed + 22933037144445 - 22933037144445) mod 2147483648"
    by simp
  also have "\<dots> = ((seed + 22933037144445) mod 2147483648 - 22933037144445) mod 2147483648"
    by (rule mod_diff_left_eq [symmetric])
  also have "\<dots> = 230538014"
    unfolding e by simp
  finally have "seed mod 2147483648 = 230538014" .
  with assms(1) small show False by simp
qed

lemma hash_range:
  assumes "0 \<le> seed"
  shows "0 \<le> hash seed \<and> hash seed \<le> RNG_m - 2"
proof -
  let ?P = "RNG_a * seed"
  let ?T = "roundDouble ?P + RNG_c"
  let ?S = "roundDouble ?T"
  have P: "0 \<le> ?P" using assms by (simp add: RNG_a_def)
  then have R: "0 \<le> roundDouble ?P" by (rule roundDouble_nonneg)
  then have T: "0 \<le> ?T" by (simp add: RNG_c_def)
  then have S: "0 \<le> ?S" by (rule roundDouble_nonneg)
  have h: "hash seed = ?S mod RNG_m"
    using jsRem_nonneg [OF S, of RNG_m] by (simp add: hash_def RNG_m_def)
  have lo: "0 \<le> ?S mod RNG_m" and hi: "?S mod RNG_m < RNG_m"
    by (simp_all add: RNG_m_def)
  have "?S mod RNG_m \<noteq> RNG_m - 1"
  proof
    assume top: "?S mod RNG_m = RNG_m - 1"
    have "?S mod 2 = (?S mod RNG_m) mod 2"
      by (simp add: RNG_m_def mod_mod_cancel)
    then have odd: "odd ?S" unfolding top by (simp add: RNG_m_def odd_iff_mod_2_eq_one)
    have Tsmall: "?T < 2 ^ 53"
    proof (rule ccontr)
      assume "\<not> ?T < 2 ^ 53"
      then have "2 ^ 53 \<le> ?T" by simp
      then have "even ?S" by (rule roundDouble_even)
      with odd show False by simp
    qed
    with T have ST: "?S = ?T" by (intro roundDouble_exact) simp
    have Psmall: "?P < 2 ^ 53"
    proof (rule ccontr)
      assume "\<not> ?P < 2 ^ 53"
      then have "2 ^ 53 \<le> ?P" by simp
      then have "2 ^ 53 \<le> roundDouble ?P" by (rule roundDouble_large)
      with Tsmall show False by (simp add: RNG_c_def)
    qed
    with P have "roundDouble ?P = ?P" by (intro roundDouble_exact) simp
    with ST top have "(RNG_a * seed + RNG_c) mod RNG_m = RNG_m - 1" by simp
    with no_seed_below [OF assms Psmall] show False by simp
  qed
  with lo hi h show ?thesis by simp
qed

lemma hash_iterates:
  "0 \<le> seed \<Longrightarrow> 0 \<le> (hash ^^ Suc n) seed \<and> (hash ^^ Suc n) seed \<le> RNG_m - 2"
proof (induction n)
  case 0
  then show ?case using hash_range [of seed] by simp
next
  case (Suc n)
  then have "0 \<le> (hash ^^ Suc n) seed" by simp
  from hash_range [OF this] show ?case by simp
qed

text \<open>
  C3. Every value of an RNG stream that starts from a non-negative integer seed below
  \<open>2^53\<close> (as the two seeds of the game, and as every hash, which is below \<open>m\<close>) is
  \<open>scale\<close> of a hash between 0 and \<open>m - 2\<close>: the hash \<open>m - 1\<close>, which alone is scaled
  to 1, is odd, so it could only come from a sum below \<open>2^53\<close>, computed without
  rounding, and the only seed that gives it exactly is too large for that. On every
  such value \<open>scaleToRange(h, 10, 19)\<close> is an integer from 10 to 19.
\<close>

theorem scaleToRange_of_rng:
  "0 \<le> seed \<Longrightarrow> seed < 2 ^ 53 \<Longrightarrow>
     0 \<le> hash seed \<and> hash seed \<le> RNG_m - 2
     \<and> rng seed n = scale ((hash ^^ Suc n) seed)
     \<and> 0 \<le> (hash ^^ Suc n) seed \<and> (hash ^^ Suc n) seed \<le> RNG_m - 2
     \<and> 10 \<le> scaleToRange (rng seed n) 10 19
     \<and> scaleToRange (rng seed n) 10 19 \<le> 19"
proof -
  assume seed: "0 \<le> seed"
  from hash_iterates [OF seed, of n]
  have it: "0 \<le> (hash ^^ Suc n) seed" "(hash ^^ Suc n) seed \<le> RNG_m - 2" by simp_all
  from scaleToRange_below_top [OF it]
  have "10 \<le> scaleToRange (rng seed n) 10 19 \<and> scaleToRange (rng seed n) 10 19 \<le> 19"
    by (simp add: rng_def)
  with hash_range [OF seed] it show ?thesis by (simp add: rng_def)
qed

theorem scaleToRange_of_rng_witness:
  "0 \<le> RNG_SEED_1 \<and> RNG_SEED_1 < 2 ^ 53
   \<and> hash RNG_SEED_1 = 1503720268
   \<and> hash 1503720268 = 745598720
   \<and> scaleToRange (rng RNG_SEED_1 0) 10 19 = 17
   \<and> scaleToRange (rng RNG_SEED_1 1) 10 19 = 13
   \<and> 10 \<le> scaleToRange (rng RNG_SEED_1 1) 10 19
   \<and> scaleToRange (rng RNG_SEED_1 1) 10 19 \<le> 19"
proof -
  have s: "0 \<le> RNG_SEED_1" "RNG_SEED_1 < 2 ^ 53" by (simp_all add: RNG_SEED_1_def)
  have h1: "hash RNG_SEED_1 = 1503720268" by code_simp
  have h2: "hash 1503720268 = 745598720" by code_simp
  have v0: "scaleToRange (rng RNG_SEED_1 0) 10 19 = 17"
    by (simp add: rng_def h1 scale_def scaleToRange_def RNG_m_def floor_numeral_div)
  have v1: "scaleToRange (rng RNG_SEED_1 1) 10 19 = 13"
    by (simp add: rng_def h1 h2 scale_def scaleToRange_def RNG_m_def floor_numeral_div)
  from scaleToRange_of_rng [OF s, of 1]
  have "10 \<le> scaleToRange (rng RNG_SEED_1 1) 10 19
      \<and> scaleToRange (rng RNG_SEED_1 1) 10 19 \<le> 19"
    by blast
  with s h1 h2 v0 v1 show ?thesis by blast
qed

end
